theory Spec2Isabelle
  imports Complex_Main
begin

section \<open>Calendar datetimes\<close>

text \<open>
  A Python \<open>datetime.datetime\<close> in UTC: the code localizes every parsed date to
  \<open>pytz.utc\<close> and its comment says of the target month "this is just UTC", so the
  embedding covers UTC datetimes only. The fields are the ones Python stores.
\<close>

record datetime =
  year :: nat
  month :: nat
  day :: nat
  hour :: nat
  minute :: nat
  second :: nat
  microsecond :: nat

text \<open>\<open>calendar.isleap\<close> and \<open>calendar.monthrange(year, month)[1]\<close>.\<close>

definition isleap :: "nat \<Rightarrow> bool" where
  "isleap y = (y mod 4 = 0 \<and> (y mod 100 \<noteq> 0 \<or> y mod 400 = 0))"

definition mdays :: "nat list" where
  "mdays = [0, 31, 28, 31, 30, 31, 30, 31, 31, 30, 31, 30, 31]"

definition days_in_month :: "nat \<Rightarrow> nat \<Rightarrow> nat" where
  "days_in_month y m = mdays ! m + (if m = 2 \<and> isleap y then 1 else 0)"

text \<open>The values the constructor of \<open>datetime.datetime\<close> accepts.\<close>

definition valid_datetime :: "datetime \<Rightarrow> bool" where
  "valid_datetime d =
     (1 \<le> year d \<and> year d \<le> 9999 \<and> 1 \<le> month d \<and> month d \<le> 12 \<and>
      1 \<le> day d \<and> day d \<le> days_in_month (year d) (month d) \<and>
      hour d < 24 \<and> minute d < 60 \<and> second d < 60 \<and> microsecond d < 1000000)"

text \<open>
  Two datetimes of the same time zone compare as the tuples
  (year, month, day, hour, minute, second, microsecond), lexicographically.
\<close>

fun lex_less :: "nat list \<Rightarrow> nat list \<Rightarrow> bool" where
  "lex_less [] [] = False"
| "lex_less [] (y # ys) = True"
| "lex_less (x # xs) [] = False"
| "lex_less (x # xs) (y # ys) = (x < y \<or> (x = y \<and> lex_less xs ys))"

definition dt_fields :: "datetime \<Rightarrow> nat list" where
  "dt_fields d = [year d, month d, day d, hour d, minute d, second d, microsecond d]"

definition dt_less :: "datetime \<Rightarrow> datetime \<Rightarrow> bool" where
  "dt_less a b = lex_less (dt_fields a) (dt_fields b)"

definition dt_ge :: "datetime \<Rightarrow> datetime \<Rightarrow> bool" where
  "dt_ge a b = (\<not> dt_less a b)"

section \<open>Errors\<close>

text \<open>
  Every exception \<open>create_export\<close> can raise is a value:
  \<^item> \<open>NoTableAssetIds\<close>: \<open>ValueError('No table asset ids specified')\<close>;
  \<^item> \<open>BadAssetId s\<close>: the \<open>IndexError\<close> or \<open>ValueError\<close> of
    \<open>parse_date_from_gedi_filename\<close> on the identifier \<open>s\<close>;
  \<^item> \<open>YearOutOfRange\<close>: the \<open>ValueError\<close> of \<open>datetime.replace\<close> inside
    \<open>month_start + relativedelta(months=1)\<close> when the year would be 10000;
  \<^item> \<open>AllOutsideMonth month_start month_end\<close>: \<open>ValueError('ALL the table files are
    outside of the expected month that is ranging from %s to %s')\<close>;
  \<^item> \<open>MajorityNotInMonth grill_month\<close>: \<open>ValueError('The majority of table ids are
    not in the requested month %s')\<close>;
  \<^item> \<open>EngineError\<close>: an error of the Earth Engine client (\<open>getInfo\<close>).
\<close>

datatype error =
    NoTableAssetIds
  | BadAssetId string
  | YearOutOfRange
  | AllOutsideMonth datetime datetime
  | MajorityNotInMonth datetime
  | EngineError

section \<open>The month window\<close>

text \<open>
  \<open>month_start = grill_month.replace(day=1)\<close>: only the day changes; day 1 is valid in
  every month, so \<open>replace\<close> does not raise.
\<close>

definition replace_day_1 :: "datetime \<Rightarrow> datetime" where
  "replace_day_1 d = d\<lparr>day := 1\<rparr>"

text \<open>
  \<open>dt + relativedelta(months=1)\<close>, as dateutil's \<open>relativedelta.__add__\<close> computes it:
  the month is incremented, rolling over into the next year after December; the day is
  cut to the length of the new month; the other fields are kept; the final
  \<open>dt.replace(year=..., month=..., day=...)\<close> raises for a year above 9999.
\<close>

definition add_one_month :: "datetime \<Rightarrow> error + datetime" where
  "add_one_month d =
     (let m1 = month d + 1;
          y = (if m1 > 12 then year d + 1 else year d);
          m = (if m1 > 12 then m1 - 12 else m1);
          dd = min (days_in_month y m) (day d)
      in if y > 9999 then Inl YearOutOfRange
         else Inr (d\<lparr>year := y, month := m, day := dd\<rparr>))"

text \<open>Lines 144 to 146 of \<open>create_export\<close>: the pair (month_start, month_end).\<close>

definition month_window :: "datetime \<Rightarrow> error + (datetime \<times> datetime)" where
  "month_window grill_month =
     (let month_start = replace_day_1 grill_month
      in case add_one_month month_start of
           Inl e \<Rightarrow> Inl e
         | Inr month_end \<Rightarrow> Inr (month_start, month_end))"


section \<open>Python floats\<close>

text \<open>
  A Python float is an IEEE binary64 number, here the rational it denotes. \<open>round64\<close>
  rounds a rational to the nearest number with a 53-bit significand, ties to even,
  which is what \<open>int / int\<close>, float subtraction and float multiplication return and
  what a float literal denotes. Overflow and subnormal numbers are not modelled: no
  magnitude in this program leaves the normal range.

  \<open>round_half_even a b\<close> is the integer nearest to \<open>a / b\<close>; \<open>scale_up p q\<close> and
  \<open>scale_down p q\<close> count the doublings that bring \<open>p / q\<close> into
  \<open>[2^52, 2^53)\<close>.
\<close>

definition round_half_even :: "int \<Rightarrow> int \<Rightarrow> int" where
  "round_half_even a b =
     (let q = a div b; r = a mod b
      in if 2 * r < b then q
         else if b < 2 * r then q + 1
         else if even q then q else q + 1)"

function scale_up :: "int \<Rightarrow> int \<Rightarrow> nat" where
  "scale_up p q = (if p \<le> 0 \<or> 2 ^ 52 * q \<le> p then 0 else Suc (scale_up (2 * p) q))"
  by pat_completeness auto
termination
  by (relation "measure (\<lambda>(p, q). nat (2 ^ 52 * q - p))") auto

function scale_down :: "int \<Rightarrow> int \<Rightarrow> nat" where
  "scale_down p q = (if q \<le> 0 \<or> p < 2 ^ 53 * q then 0 else Suc (scale_down p (2 * q)))"
  by pat_completeness auto
termination
  by (relation "measure (\<lambda>(p, q). nat (p + 1 - 2 ^ 53 * q))") auto

declare scale_up.simps [simp del] scale_down.simps [simp del]

definition round_pos :: "int \<Rightarrow> int \<Rightarrow> rat" where
  "round_pos p q =
     (let u = scale_up p q; d = scale_down p q
      in of_int (round_half_even (p * 2 ^ u) (q * 2 ^ d)) * 2 ^ d / 2 ^ u)"

definition round64 :: "rat \<Rightarrow> rat" where
  "round64 x =
     (case quotient_of x of (a, b) \<Rightarrow>
        if a = 0 then 0
        else if 0 < a then round_pos a b
        else - round_pos (- a) b)"

text \<open>\<open>a / b\<close> on Python ints (the divisor is never 0 where the program divides).\<close>

definition py_truediv :: "int \<Rightarrow> int \<Rightarrow> rat" where
  "py_truediv a b = round64 (of_int a / of_int b)"

text \<open>\<open>x - y\<close> and \<open>x * y\<close> on floats.\<close>

definition float_sub :: "rat \<Rightarrow> rat \<Rightarrow> rat" where
  "float_sub x y = round64 (x - y)"

definition float_mul :: "rat \<Rightarrow> rat \<Rightarrow> rat" where
  "float_mul x y = round64 (x * y)"

text \<open>The literal \<open>0.95\<close>.\<close>

definition float_0_95 :: rat where
  "float_0_95 = round64 (95 / 100)"

section \<open>Mission delta-time\<close>

text \<open>
  \<open>date.toordinal()\<close>: the day number, 1 for 0001-01-01.
\<close>

definition days_before_year :: "nat \<Rightarrow> int" where
  "days_before_year y =
     (let y1 = int y - 1 in y1 * 365 + y1 div 4 - y1 div 100 + y1 div 400)"

definition days_before_month :: "nat \<Rightarrow> nat \<Rightarrow> int" where
  "days_before_month y m = (\<Sum>i \<leftarrow> [1..<m]. int (days_in_month y i))"

definition toordinal :: "datetime \<Rightarrow> int" where
  "toordinal d = days_before_year (year d) + days_before_month (year d) (month d) + int (day d)"

text \<open>
  \<open>timedelta.total_seconds()\<close> of the difference \<open>a - b\<close> of two datetimes:
  \<open>((days * 86400 + seconds) * 10**6 + microseconds) / 10**6\<close>, a true division.
\<close>

definition seconds_of_day :: "datetime \<Rightarrow> int" where
  "seconds_of_day d = int (hour d) * 3600 + int (minute d) * 60 + int (second d)"

definition microseconds_between :: "datetime \<Rightarrow> datetime \<Rightarrow> int" where
  "microseconds_between a b =
     ((toordinal a - toordinal b) * 86400 + (seconds_of_day a - seconds_of_day b)) * 10 ^ 6
       + (int (microsecond a) - int (microsecond b))"

definition total_seconds_between :: "datetime \<Rightarrow> datetime \<Rightarrow> rat" where
  "total_seconds_between a b = py_truediv (microseconds_between a b) (10 ^ 6)"

definition datetime_ymd :: "nat \<Rightarrow> nat \<Rightarrow> nat \<Rightarrow> datetime" where
  "datetime_ymd y m d =
     \<lparr>year = y, month = m, day = d, hour = 0, minute = 0, second = 0, microsecond = 0\<rparr>"

text \<open>\<open>dt.timestamp()\<close> of a UTC datetime: \<open>(dt - _EPOCH).total_seconds()\<close>.\<close>

definition timestamp :: "datetime \<Rightarrow> rat" where
  "timestamp dt = total_seconds_between dt (datetime_ymd 1970 1 1)"

definition gedi_deltatime_epoch :: "datetime \<Rightarrow> rat" where
  "gedi_deltatime_epoch dt =
     float_sub (timestamp dt)
       (total_seconds_between (datetime_ymd 2018 1 1) (datetime_ymd 1970 1 1))"

section \<open>Parsing the date of a table asset id\<close>

text \<open>\<open>os.path.basename\<close>: what follows the last slash.\<close>

definition basename :: "string \<Rightarrow> string" where
  "basename p = rev (takeWhile (\<lambda>c. c \<noteq> CHR ''/'') (rev p))"

text \<open>\<open>s.split(sep)\<close> for a one-character separator.\<close>

fun split_on :: "char \<Rightarrow> string \<Rightarrow> string list" where
  "split_on sep [] = [[]]"
| "split_on sep (c # cs) =
     (if c = sep then [] # split_on sep cs
      else case split_on sep cs of
             [] \<Rightarrow> [[c]]
           | p # ps \<Rightarrow> (c # p) # ps)"

text \<open>
  \<open>parse_date_from_gedi_filename\<close>. The library call
  \<open>datetime.strptime(token, '%Y%j%H%M%S')\<close> is a parameter, \<open>None\<close> where it raises;
  indexing \<open>[2]\<close> raises when the base name has fewer than three segments.
\<close>

definition parse_date_from_gedi_filename ::
  "(string \<Rightarrow> datetime option) \<Rightarrow> string \<Rightarrow> error + datetime" where
  "parse_date_from_gedi_filename strptime table_asset_id =
     (let parts = split_on CHR ''_'' (basename table_asset_id)
      in if length parts \<le> 2 then Inl (BadAssetId table_asset_id)
         else case strptime (parts ! 2) of
                None \<Rightarrow> Inl (BadAssetId table_asset_id)
              | Some date_obj \<Rightarrow> Inr date_obj)"

text \<open>The loop of lines 138 to 141; the first identifier that does not parse raises.\<close>

fun parse_all :: "(string \<Rightarrow> datetime option) \<Rightarrow> string list \<Rightarrow> error + datetime list" where
  "parse_all strptime [] = Inr []"
| "parse_all strptime (asset_id # rest) =
     (case parse_date_from_gedi_filename strptime asset_id of
        Inl e \<Rightarrow> Inl e
      | Inr date_obj \<Rightarrow>
          (case parse_all strptime rest of
             Inl e \<Rightarrow> Inl e
           | Inr dts \<Rightarrow> Inr (date_obj # dts)))"

section \<open>The month checks\<close>

definition outside_month :: "datetime \<Rightarrow> datetime \<Rightarrow> datetime \<Rightarrow> bool" where
  "outside_month month_start month_end date =
     (dt_less date month_start \<or> dt_ge date month_end)"

definition in_month :: "datetime \<Rightarrow> datetime \<Rightarrow> datetime \<Rightarrow> bool" where
  "in_month month_start month_end dates =
     (dt_ge dates month_start \<and> dt_less dates month_end)"

definition right_month_dts :: "datetime \<Rightarrow> datetime \<Rightarrow> datetime list \<Rightarrow> datetime list" where
  "right_month_dts month_start month_end table_asset_dts =
     filter (in_month month_start month_end) table_asset_dts"

text \<open>
  Lines 147 to 159. On an empty list \<open>all\<close> is true, so the division is never by zero.
\<close>

definition check_month ::
  "datetime \<Rightarrow> datetime \<Rightarrow> datetime \<Rightarrow> datetime list \<Rightarrow> error + unit" where
  "check_month grill_month month_start month_end table_asset_dts =
     (if list_all (outside_month month_start month_end) table_asset_dts
      then Inl (AllOutsideMonth month_start month_end)
      else if py_truediv (int (length (right_month_dts month_start month_end table_asset_dts)))
                (int (length table_asset_dts)) < float_0_95
      then Inl (MajorityNotInMonth grill_month)
      else Inr ())"

section \<open>The band schema\<close>

text \<open>\<open>str(count)\<close> for a count that is not negative.\<close>

definition digit_char :: "nat \<Rightarrow> char" where
  "digit_char n = ''0123456789'' ! n"

fun str_nat :: "nat \<Rightarrow> string" where
  "str_nat n =
     (if n < 10 then [digit_char n] else str_nat (n div 10) @ [digit_char (n mod 10)])"

declare str_nat.simps [simp del]

text \<open>The body of the inner function \<open>get_raster_bands\<close>.\<close>

definition get_raster_bands :: "string \<Rightarrow> string list" where
  "get_raster_bands band = map (\<lambda>count. band @ str_nat count) [0..<30]"

text \<open>
  The function under \<open>@memoize.Memoize()\<close>: a call looks its argument up in the cache,
  and only a miss runs the body and stores its result. The cache is the state.
\<close>

type_synonym band_cache = "string \<rightharpoonup> string list"

definition get_raster_bands_memo :: "band_cache \<Rightarrow> string \<Rightarrow> string list \<times> band_cache" where
  "get_raster_bands_memo cache band =
     (case cache band of
        Some bands \<Rightarrow> (bands, cache)
      | None \<Rightarrow> (let bands = get_raster_bands band in (bands, cache(band \<mapsto> bands))))"

text \<open>A sequence of calls of the memoized function, each on the cache the last one left.\<close>

fun memo_calls :: "band_cache \<Rightarrow> string list \<Rightarrow> string list list \<times> band_cache" where
  "memo_calls cache [] = ([], cache)"
| "memo_calls cache (band # rest) =
     (let (bands, cache1) = get_raster_bands_memo cache band;
          (results, cache2) = memo_calls cache1 rest
      in (bands # results, cache2))"

text \<open>
  Lines 166 to 175. The memoized function is defined inside \<open>create_export\<close>, so its
  cache starts empty; the three calls run left to right.
\<close>

definition raster_bands :: "string list" where
  "raster_bands =
     (let (cover_z, cache1) = get_raster_bands_memo Map.empty ''cover_z'';
          (pai_z, cache2) = get_raster_bands_memo cache1 ''pai_z'';
          (pavd_z, cache3) = get_raster_bands_memo cache2 ''pavd_z''
      in [''algorithmrun_flag'', ''beam'', ''cover''] @ cover_z @
         [''degrade_flag'', ''delta_time'', ''fhd_normal'', ''l2b_quality_flag'',
          ''local_beam_azimuth'', ''local_beam_elevation'', ''pai''] @ pai_z @ pavd_z @
         [''pgap_theta'', ''selected_l2a_algorithm'', ''selected_rg_algorithm'',
          ''sensitivity'', ''solar_azimuth'', ''solar_elevation'',
          ''minor_frame_number'', ''orbit_number'', ''shot_number_within_beam''])"

definition INTEGER_PROPS :: "string set" where
  "INTEGER_PROPS = set
     [''algorithmrun_flag'',
      ''algorithmrun_flag_aN'',
      ''channel'',
      ''degrade_flag'',
      ''l2a_quality_flag'',
      ''l2b_quality_flag'',
      ''landsat_water_persistencoe'',
      ''leaf_off_flag'',
      ''leaf_on_cycle'',
      ''master_int'',
      ''num_detectedmodes'',
      ''pft_class'',
      ''region_class'',
      ''rg_eg_constraint_center_buffer'',
      ''rg_eg_flag_aN'',
      ''rg_eg_niter_aN'',
      ''selected_l2a_algorithm'',
      ''selected_mode'',
      ''selected_mode_flag'',
      ''selected_rg_algorithm'',
      ''stale_return_flag'',
      ''surface_flag'',
      ''urban_focal_window_size'',
      ''urban_proportion'',
      ''minor_frame_number'',
      ''orbit_number'',
      ''shot_number_within_beam'']"

text \<open>Line 213: \<open>[p for p in raster_bands if p in INTEGER_PROPS]\<close>.\<close>

definition int_bands :: "string list" where
  "int_bands = filter (\<lambda>p. p \<in> INTEGER_PROPS) raster_bands"

section \<open>The Earth Engine objects the export is built from\<close>

text \<open>
  The Earth Engine client builds descriptions that the service evaluates. The embedding
  gives each description the value the Earth Engine API documents for it. What the
  program takes from outside is the record \<open>world\<close>:
  \<^item> \<open>strptime\<close>: \<open>datetime.strptime(token, '%Y%j%H%M%S')\<close>, \<open>None\<close> where it raises;
  \<^item> \<open>mktime\<close>: \<open>time.mktime(dt.timetuple())\<close>, in the local time zone of the machine;
  \<^item> \<open>FeatureCollection\<close>: the features of the table asset of an id, in their order;
  \<^item> \<open>buffer\<close>, \<open>bounds\<close>: the geometry operations of these names;
  \<^item> \<open>intersects\<close>: whether two geometries intersect, the test of \<open>filterBounds\<close>;
  \<^item> \<open>pixel_at crs scale g\<close>: the pixel, in the grid of projection \<open>crs\<close> at
    \<open>scale\<close>, that the point \<open>g\<close> falls in;
  \<^item> \<open>task_id\<close>: the id the service gives the n-th task.

  A shot is a feature of a table: a point with numeric properties.
\<close>

record 'g shot =
  shot_geometry :: 'g
  shot_props :: "string \<Rightarrow> rat"

record 'g grid_cell =
  cell_geometry :: 'g
  cell_crs :: "string option"

record ('g, 'px) world =
  strptime :: "string \<Rightarrow> datetime option"
  mktime :: "datetime \<Rightarrow> rat"
  FeatureCollection :: "string \<Rightarrow> 'g shot list"
  buffer :: "'g \<Rightarrow> nat \<Rightarrow> nat \<Rightarrow> 'g"
  bounds :: "'g \<Rightarrow> 'g"
  intersects :: "'g \<Rightarrow> 'g \<Rightarrow> bool"
  pixel_at :: "string \<Rightarrow> nat \<Rightarrow> 'g \<Rightarrow> 'px"
  task_id :: "nat \<Rightarrow> string"

text \<open>
  \<open>ee.FeatureCollection(shots).flatten()\<close>: the features of all the tables, one table
  after the other.
\<close>

definition flatten :: "('g, 'px) world \<Rightarrow> string list \<Rightarrow> 'g shot list" where
  "flatten w table_asset_ids = concat (map (FeatureCollection w) table_asset_ids)"

text \<open>\<open>collection.filterBounds(box)\<close> keeps the features whose geometry intersects the box.\<close>

definition filterBounds :: "('g, 'px) world \<Rightarrow> 'g \<Rightarrow> 'g shot list \<Rightarrow> 'g shot list" where
  "filterBounds w box shots = filter (\<lambda>s. intersects w (shot_geometry s) box) shots"

text \<open>
  \<open>ee.Filter.rangeContains(field, minValue, maxValue)\<close>: "a filter that passes if the
  value of the selected field is in the specified range (inclusive)".
\<close>

definition rangeContains :: "string \<Rightarrow> rat \<Rightarrow> rat \<Rightarrow> 'g shot \<Rightarrow> bool" where
  "rangeContains field minValue maxValue s =
     (minValue \<le> shot_props s field \<and> shot_props s field \<le> maxValue)"

text \<open>
  \<open>collection.sort(property, False)\<close>: descending by the property. Features of equal
  property are left in their order.
\<close>

definition sort_descending :: "string \<Rightarrow> 'g shot list \<Rightarrow> 'g shot list" where
  "sort_descending property shots = sort_key (\<lambda>s. - shot_props s property) shots"

text \<open>
  An image is its list of bands, its properties and the geometry it is clipped to. A
  band has a name and a pixel type and says, for every pixel, which record's property
  of that name the pixel carries (\<open>None\<close> for a pixel without data).
\<close>

datatype pixel_type = AsReduced | Double | Int32

record ('g, 'px) band =
  band_name :: string
  band_type :: pixel_type
  band_source :: "'px \<Rightarrow> 'g shot option"

record image_properties =
  prop_month :: nat
  prop_year :: nat
  prop_version :: nat
  prop_time_start :: rat
  prop_time_end :: rat
  prop_table_asset_ids :: "string list"

record ('g, 'px) ee_image =
  bands :: "('g, 'px) band list"
  properties :: "image_properties option"
  clipped_to :: "'g option"

text \<open>
  \<open>collection.reduceToImage(properties, ee.Reducer.first().forEach(properties))
  .reproject(crs, None, scale)\<close>: one band for each property; a pixel takes the property
  from the first feature of the collection that falls in it.
\<close>

definition first_at ::
  "('g, 'px) world \<Rightarrow> string \<Rightarrow> nat \<Rightarrow> 'g shot list \<Rightarrow> 'px \<Rightarrow> 'g shot option" where
  "first_at w crs scale shots p =
     find (\<lambda>s. pixel_at w crs scale (shot_geometry s) = p) shots"

definition reduceToImage_first ::
  "('g, 'px) world \<Rightarrow> string list \<Rightarrow> string \<Rightarrow> nat \<Rightarrow> 'g shot list \<Rightarrow> ('g, 'px) ee_image" where
  "reduceToImage_first w props crs scale shots =
     \<lparr>bands = map (\<lambda>name. \<lparr>band_name = name, band_type = AsReduced,
                            band_source = first_at w crs scale shots\<rparr>) props,
      properties = None,
      clipped_to = None\<rparr>"

definition set_properties ::
  "image_properties \<Rightarrow> ('g, 'px) ee_image \<Rightarrow> ('g, 'px) ee_image" where
  "set_properties ps img = img\<lparr>properties := Some ps\<rparr>"

text \<open>\<open>image.toDouble()\<close> and \<open>image.toInt()\<close> cast every band.\<close>

definition toDouble :: "('g, 'px) ee_image \<Rightarrow> ('g, 'px) ee_image" where
  "toDouble img = img\<lparr>bands := map (\<lambda>b. b\<lparr>band_type := Double\<rparr>) (bands img)\<rparr>"

definition toInt :: "('g, 'px) ee_image \<Rightarrow> ('g, 'px) ee_image" where
  "toInt img = img\<lparr>bands := map (\<lambda>b. b\<lparr>band_type := Int32\<rparr>) (bands img)\<rparr>"

text \<open>
  \<open>image.select(names)\<close>: the bands of these names, in the order of the names; a name
  the image does not have is an error.
\<close>

fun select_bands :: "('g, 'px) band list \<Rightarrow> string list \<Rightarrow> ('g, 'px) band list option" where
  "select_bands bs [] = Some []"
| "select_bands bs (name # names) =
     (case find (\<lambda>b. band_name b = name) bs of
        None \<Rightarrow> None
      | Some b \<Rightarrow> map_option ((#) b) (select_bands bs names))"

definition select_image :: "('g, 'px) ee_image \<Rightarrow> string list \<Rightarrow> error + ('g, 'px) ee_image" where
  "select_image img names =
     (case select_bands (bands img) names of
        None \<Rightarrow> Inl EngineError
      | Some bs \<Rightarrow> Inr (img\<lparr>bands := bs\<rparr>))"

text \<open>
  \<open>dst.addBands(src, overwrite=True)\<close>: "all bands copied from the first input and
  selected bands from the second input, optionally overwriting bands in the first image
  with the same name"; the properties and footprint are those of the first image.
\<close>

definition add_band_overwrite ::
  "('g, 'px) band list \<Rightarrow> ('g, 'px) band \<Rightarrow> ('g, 'px) band list" where
  "add_band_overwrite dst b =
     (if band_name b \<in> set (map band_name dst)
      then map (\<lambda>d. if band_name d = band_name b then b else d) dst
      else dst @ [b])"

definition addBands_overwrite ::
  "('g, 'px) ee_image \<Rightarrow> ('g, 'px) ee_image \<Rightarrow> ('g, 'px) ee_image" where
  "addBands_overwrite dst src = dst\<lparr>bands := foldl add_band_overwrite (bands dst) (bands src)\<rparr>"

definition clip :: "'g \<Rightarrow> ('g, 'px) ee_image \<Rightarrow> ('g, 'px) ee_image" where
  "clip box img = img\<lparr>clipped_to := Some box\<rparr>"

section \<open>Export construction\<close>

record ('g, 'px) ExportParameters =
  asset_id :: string
  image_ee :: "('g, 'px) ee_image"
  pyramiding_policy :: "(string \<times> string) list"
  crs :: string
  region :: 'g
  overwrite :: bool

definition timestamp_ms_for_datetime :: "('g, 'px) world \<Rightarrow> datetime \<Rightarrow> rat" where
  "timestamp_ms_for_datetime w dt = float_mul (mktime w dt) 1000"

text \<open>Lines 185 to 190: the flattened tables, filtered by the box and by delta_time.\<close>

definition filter_shots ::
  "('g, 'px) world \<Rightarrow> string list \<Rightarrow> 'g \<Rightarrow> datetime \<Rightarrow> datetime \<Rightarrow> 'g shot list" where
  "filter_shots w table_asset_ids box month_start month_end =
     filter (rangeContains ''delta_time''
               (gedi_deltatime_epoch month_start) (gedi_deltatime_epoch month_end))
       (filterBounds w box (flatten w table_asset_ids))"

text \<open>
  Lines 213 to 216:
  \<open>image.toDouble().addBands(image.select(int_bands).toInt(), overwrite=True)\<close>.
\<close>

definition cast_types :: "('g, 'px) ee_image \<Rightarrow> error + ('g, 'px) ee_image" where
  "cast_types img =
     (case select_image img int_bands of
        Inl e \<Rightarrow> Inl e
      | Inr selected \<Rightarrow> Inr (addBands_overwrite (toDouble img) (toInt selected)))"

text \<open>Line 181: \<open>box = grid_cell_feature.geometry().buffer(2500, 25).bounds()\<close>.\<close>

definition export_box :: "('g, 'px) world \<Rightarrow> 'g grid_cell \<Rightarrow> 'g" where
  "export_box w grid_cell_feature =
     bounds w (buffer w (cell_geometry grid_cell_feature) 2500 25)"

text \<open>
  The collection that is reduced: the filtered shots, sorted at line 194 and again at
  line 208.
\<close>

definition export_shots ::
  "('g, 'px) world \<Rightarrow> string list \<Rightarrow> 'g grid_cell \<Rightarrow> datetime \<Rightarrow> datetime \<Rightarrow> 'g shot list" where
  "export_shots w table_asset_ids grid_cell_feature month_start month_end =
     sort_descending ''sensitivity'' (sort_descending ''sensitivity''
       (filter_shots w table_asset_ids (export_box w grid_cell_feature)
          month_start month_end))"

text \<open>
  Lines 161 to 224, what \<open>create_export\<close> does once the month checks have passed.
  \<open>getInfo\<close> at line 196 asks the service for the projection of the cell and raises
  when it has none.
\<close>

definition build_export ::
  "('g, 'px) world \<Rightarrow> string list \<Rightarrow> string \<Rightarrow> 'g grid_cell \<Rightarrow> datetime \<Rightarrow> datetime \<Rightarrow>
     datetime \<Rightarrow> bool \<Rightarrow> error + ('g, 'px) ExportParameters" where
  "build_export w table_asset_ids raster_asset_id grid_cell_feature grill_month
       month_start month_end overwrite_flag =
     (let box = export_box w grid_cell_feature
      in case cell_crs grid_cell_feature of
           None \<Rightarrow> Inl EngineError
         | Some crs_name \<Rightarrow>
             (let image_props =
                    \<lparr>prop_month = month grill_month,
                     prop_year = year grill_month,
                     prop_version = 1,
                     prop_time_start = timestamp_ms_for_datetime w month_start,
                     prop_time_end = timestamp_ms_for_datetime w month_end,
                     prop_table_asset_ids = table_asset_ids\<rparr>;
                  img = set_properties image_props
                          (reduceToImage_first w raster_bands crs_name 25
                             (export_shots w table_asset_ids grid_cell_feature
                                month_start month_end))
              in case cast_types img of
                   Inl e \<Rightarrow> Inl e
                 | Inr image_with_types \<Rightarrow>
                     Inr \<lparr>asset_id = raster_asset_id,
                          image_ee = clip box image_with_types,
                          pyramiding_policy = [(''.default'', ''sample'')],
                          crs = crs_name,
                          region = box,
                          overwrite = overwrite_flag\<rparr>))"

definition create_export ::
  "('g, 'px) world \<Rightarrow> string list \<Rightarrow> string \<Rightarrow> 'g grid_cell \<Rightarrow> datetime \<Rightarrow> bool \<Rightarrow>
     error + ('g, 'px) ExportParameters" where
  "create_export w table_asset_ids raster_asset_id grid_cell_feature grill_month
       overwrite_flag =
     (if table_asset_ids = [] then Inl NoTableAssetIds
      else case parse_all (strptime w) table_asset_ids of
             Inl e \<Rightarrow> Inl e
           | Inr table_asset_dts \<Rightarrow>
               (case month_window grill_month of
                  Inl e \<Rightarrow> Inl e
                | Inr (month_start, month_end) \<Rightarrow>
                    (case check_month grill_month month_start month_end table_asset_dts of
                       Inl e \<Rightarrow> Inl e
                     | Inr _ \<Rightarrow>
                         build_export w table_asset_ids raster_asset_id grid_cell_feature
                           grill_month month_start month_end overwrite_flag)))"

section \<open>Starting the export task\<close>

text \<open>
  The state of the export service is the list of the tasks started so far.
  \<open>_start_task\<close> adds one task and returns its id.
\<close>

record ('g, 'px) export_task =
  task_image :: "('g, 'px) ee_image"
  task_description :: string
  task_assetId :: string
  task_region :: 'g
  task_pyramidingPolicy :: "(string \<times> string) list"
  task_scale :: nat
  task_crs :: string
  task_maxPixels :: nat
  task_overwrite :: bool

definition start_task ::
  "('g, 'px) world \<Rightarrow> ('g, 'px) export_task list \<Rightarrow> ('g, 'px) ExportParameters \<Rightarrow>
     string \<times> ('g, 'px) export_task list" where
  "start_task w tasks export_params =
     (let task = \<lparr>task_image = image_ee export_params,
                   task_description = basename (asset_id export_params),
                   task_assetId = asset_id export_params,
                   task_region = region export_params,
                   task_pyramidingPolicy = pyramiding_policy export_params,
                   task_scale = 25,
                   task_crs = crs export_params,
                   task_maxPixels = 10 ^ 13,
                   task_overwrite = overwrite export_params\<rparr>
      in (task_id w (length tasks), tasks @ [task]))"

definition rasterize_gedi_by_utm_zone ::
  "('g, 'px) world \<Rightarrow> ('g, 'px) export_task list \<Rightarrow> string list \<Rightarrow> string \<Rightarrow> 'g grid_cell \<Rightarrow>
     datetime \<Rightarrow> bool \<Rightarrow> (error + string) \<times> ('g, 'px) export_task list" where
  "rasterize_gedi_by_utm_zone w tasks table_asset_ids raster_asset_id grid_cell_feature
       grill_month overwrite_flag =
     (case create_export w table_asset_ids raster_asset_id grid_cell_feature grill_month
             overwrite_flag of
        Inl e \<Rightarrow> (Inl e, tasks)
      | Inr export_params \<Rightarrow>
          (let (tid, tasks1) = start_task w tasks export_params in (Inr tid, tasks1)))"

section \<open>Auxiliary notions for the proofs\<close>

text \<open>A cache of the memoized band expansion holds only results of its body.\<close>

definition cache_ok :: "band_cache \<Rightarrow> bool" where
  "cache_ok cache = (\<forall>band bands. cache band = Some bands \<longrightarrow> bands = get_raster_bands band)"

section \<open>A small world for the examples\<close>

text \<open>
  Geometries in a plane: points and rectangles parallel to the axes. A point is in the
  pixel of its coordinates divided by the scale. Two table assets, one dated 1 March
  2020 and one dated 1 April 2020; the first holds four shots.
\<close>

datatype plane_geometry = Point int int | Rectangle int int int int

definition example_buffer :: "plane_geometry \<Rightarrow> nat \<Rightarrow> nat \<Rightarrow> plane_geometry" where
  "example_buffer g distance segments =
     (case g of
        Point x y \<Rightarrow> Rectangle (x - int distance) (y - int distance)
                       (x + int distance) (y + int distance)
      | Rectangle x0 y0 x1 y1 \<Rightarrow> Rectangle (x0 - int distance) (y0 - int distance)
                       (x1 + int distance) (y1 + int distance))"

definition example_bounds :: "plane_geometry \<Rightarrow> plane_geometry" where
  "example_bounds g = (case g of Point x y \<Rightarrow> Rectangle x y x y | Rectangle x0 y0 x1 y1 \<Rightarrow> g)"

definition example_intersects :: "plane_geometry \<Rightarrow> plane_geometry \<Rightarrow> bool" where
  "example_intersects g box =
     (case (g, box) of
        (Point x y, Rectangle x0 y0 x1 y1) \<Rightarrow> x0 \<le> x \<and> x \<le> x1 \<and> y0 \<le> y \<and> y \<le> y1
      | _ \<Rightarrow> False)"

definition example_pixel_at :: "string \<Rightarrow> nat \<Rightarrow> plane_geometry \<Rightarrow> int \<times> int" where
  "example_pixel_at crs_name scale g =
     (case g of
        Point x y \<Rightarrow> (x div int scale, y div int scale)
      | Rectangle x0 y0 x1 y1 \<Rightarrow> (x0 div int scale, y0 div int scale))"

definition march_id :: string where
  "march_id = ''LARSE/GEDI/GEDI02_B_2020061000000_O06915_T00131''"

definition april_id :: string where
  "april_id = ''LARSE/GEDI/GEDI02_B_2020092000000_O07395_T00131''"

definition example_strptime :: "string \<Rightarrow> datetime option" where
  "example_strptime = map_of
     [(''2020061000000'', datetime_ymd 2020 3 1),
      (''2020092000000'', datetime_ymd 2020 4 1)]"

definition example_shot :: "int \<Rightarrow> int \<Rightarrow> rat \<Rightarrow> rat \<Rightarrow> plane_geometry shot" where
  "example_shot x y delta_time sensitivity =
     \<lparr>shot_geometry = Point x y,
      shot_props = (\<lambda>name. if name = ''delta_time'' then delta_time
                            else if name = ''sensitivity'' then sensitivity else 0)\<rparr>"

definition example_tables :: "string \<Rightarrow> plane_geometry shot list" where
  "example_tables table_asset_id =
     (if table_asset_id = march_id
      then [example_shot 10 10 68256000 (7 / 10),
            example_shot 12 12 68256000 (9 / 10),
            example_shot 100 100 70934400 (1 / 2),
            example_shot 90000 90000 68256000 (99 / 100)]
      else [])"

definition example_world :: "(plane_geometry, int \<times> int) world" where
  "example_world =
     \<lparr>strptime = example_strptime,
      mktime = (\<lambda>dt. 0),
      FeatureCollection = example_tables,
      buffer = example_buffer,
      bounds = example_bounds,
      intersects = example_intersects,
      pixel_at = example_pixel_at,
      task_id = (\<lambda>n. ''TASK'' @ str_nat n)\<rparr>"

definition example_cell :: "plane_geometry grid_cell" where
  "example_cell = \<lparr>cell_geometry = Rectangle 0 0 1000 1000, cell_crs = Some ''EPSG:32610''\<rparr>"

section \<open>The band schema: proofs\<close>


lemma get_raster_bands_names:
  "get_raster_bands band =
     [band @ ''0'', band @ ''1'', band @ ''2'', band @ ''3'', band @ ''4'', band @
      ''5'', band @ ''6'', band @ ''7'', band @ ''8'', band @ ''9'', band @ ''10'',
      band @ ''11'', band @ ''12'', band @ ''13'', band @ ''14'', band @ ''15'', band
      @ ''16'', band @ ''17'', band @ ''18'', band @ ''19'', band @ ''20'', band @
      ''21'', band @ ''22'', band @ ''23'', band @ ''24'', band @ ''25'', band @
      ''26'', band @ ''27'', band @ ''28'', band @ ''29'']"
  unfolding get_raster_bands_def by code_simp

lemma memo_step:
  "cache_ok cache \<Longrightarrow>
     fst (get_raster_bands_memo cache band) = get_raster_bands band \<and>
     cache_ok (snd (get_raster_bands_memo cache band))"
  by (auto simp: get_raster_bands_memo_def cache_ok_def Let_def split: option.splits)

lemma memo_calls_pure:
  "cache_ok cache \<Longrightarrow> fst (memo_calls cache bs) = map get_raster_bands bs"
proof (induction bs arbitrary: cache)
  case Nil
  then show ?case by simp
next
  case (Cons b bs)
  from memo_step [OF Cons.prems, of b]
  have 1: "fst (get_raster_bands_memo cache b) = get_raster_bands b"
    and 2: "cache_ok (snd (get_raster_bands_memo cache b))" by simp_all
  from Cons.IH [OF 2] 1 show ?case
    by (simp add: split_beta Let_def)
qed

lemma raster_bands_eq:
  "raster_bands =
     [''algorithmrun_flag'', ''beam'', ''cover''] @ get_raster_bands ''cover_z'' @
     [''degrade_flag'', ''delta_time'', ''fhd_normal'', ''l2b_quality_flag'',
      ''local_beam_azimuth'', ''local_beam_elevation'', ''pai''] @
     get_raster_bands ''pai_z'' @ get_raster_bands ''pavd_z'' @
     [''pgap_theta'', ''selected_l2a_algorithm'', ''selected_rg_algorithm'',
      ''sensitivity'', ''solar_azimuth'', ''solar_elevation'',
      ''minor_frame_number'', ''orbit_number'', ''shot_number_within_beam'']"
  by (simp add: raster_bands_def get_raster_bands_memo_def Let_def)

lemma raster_bands_explicit:
  "raster_bands =
     [''algorithmrun_flag'', ''beam'', ''cover'',
      ''cover_z0'', ''cover_z1'', ''cover_z2'', ''cover_z3'', ''cover_z4'', ''cover_z5'',
      ''cover_z6'', ''cover_z7'', ''cover_z8'', ''cover_z9'', ''cover_z10'', ''cover_z11'',
      ''cover_z12'', ''cover_z13'', ''cover_z14'', ''cover_z15'', ''cover_z16'', ''cover_z17'',
      ''cover_z18'', ''cover_z19'', ''cover_z20'', ''cover_z21'', ''cover_z22'', ''cover_z23'',
      ''cover_z24'', ''cover_z25'', ''cover_z26'', ''cover_z27'', ''cover_z28'', ''cover_z29'',
      ''degrade_flag'', ''delta_time'', ''fhd_normal'', ''l2b_quality_flag'',
      ''local_beam_azimuth'', ''local_beam_elevation'', ''pai'',
      ''pai_z0'', ''pai_z1'', ''pai_z2'', ''pai_z3'', ''pai_z4'', ''pai_z5'',
      ''pai_z6'', ''pai_z7'', ''pai_z8'', ''pai_z9'', ''pai_z10'', ''pai_z11'',
      ''pai_z12'', ''pai_z13'', ''pai_z14'', ''pai_z15'', ''pai_z16'', ''pai_z17'',
      ''pai_z18'', ''pai_z19'', ''pai_z20'', ''pai_z21'', ''pai_z22'', ''pai_z23'',
      ''pai_z24'', ''pai_z25'', ''pai_z26'', ''pai_z27'', ''pai_z28'', ''pai_z29'',
      ''pavd_z0'', ''pavd_z1'', ''pavd_z2'', ''pavd_z3'', ''pavd_z4'', ''pavd_z5'',
      ''pavd_z6'', ''pavd_z7'', ''pavd_z8'', ''pavd_z9'', ''pavd_z10'', ''pavd_z11'',
      ''pavd_z12'', ''pavd_z13'', ''pavd_z14'', ''pavd_z15'', ''pavd_z16'', ''pavd_z17'',
      ''pavd_z18'', ''pavd_z19'', ''pavd_z20'', ''pavd_z21'', ''pavd_z22'', ''pavd_z23'',
      ''pavd_z24'', ''pavd_z25'', ''pavd_z26'', ''pavd_z27'', ''pavd_z28'', ''pavd_z29'',
      ''pgap_theta'', ''selected_l2a_algorithm'', ''selected_rg_algorithm'',
      ''sensitivity'', ''solar_azimuth'', ''solar_elevation'',
      ''minor_frame_number'', ''orbit_number'', ''shot_number_within_beam'']"
  unfolding raster_bands_eq get_raster_bands_names by simp

lemma raster_bands_length: "length raster_bands = 109"
  unfolding raster_bands_explicit by simp

lemma raster_bands_distinct: "distinct raster_bands"
  unfolding raster_bands_explicit by simp

lemma int_bands_explicit:
  "int_bands = [''algorithmrun_flag'', ''degrade_flag'', ''l2b_quality_flag'',
     ''selected_l2a_algorithm'', ''selected_rg_algorithm'',
     ''minor_frame_number'', ''orbit_number'', ''shot_number_within_beam'']"
  unfolding int_bands_def raster_bands_explicit INTEGER_PROPS_def by simp


text \<open>
  C5. For every prefix, the band expansion returns the 30 names prefix0 to prefix29 in
  numeric order (cover_z0 to cover_z29 for the prefix cover_z), and the memoized function
  returns, over any sequence of calls starting from the empty cache, what the body
  returns: calling it twice gives the same list twice.
\<close>

theorem get_raster_bands_thirty_names_cache_unobservable:
  "get_raster_bands band =
     [band @ ''0'', band @ ''1'', band @ ''2'', band @ ''3'', band @ ''4'', band @
      ''5'', band @ ''6'', band @ ''7'', band @ ''8'', band @ ''9'', band @ ''10'',
      band @ ''11'', band @ ''12'', band @ ''13'', band @ ''14'', band @ ''15'', band
      @ ''16'', band @ ''17'', band @ ''18'', band @ ''19'', band @ ''20'', band @
      ''21'', band @ ''22'', band @ ''23'', band @ ''24'', band @ ''25'', band @
      ''26'', band @ ''27'', band @ ''28'', band @ ''29'']
   \<and> length (get_raster_bands band) = 30
   \<and> get_raster_bands ''cover_z'' =
     [''cover_z0'', ''cover_z1'', ''cover_z2'', ''cover_z3'', ''cover_z4'', ''cover_z5'',
      ''cover_z6'', ''cover_z7'', ''cover_z8'', ''cover_z9'', ''cover_z10'', ''cover_z11'',
      ''cover_z12'', ''cover_z13'', ''cover_z14'', ''cover_z15'', ''cover_z16'', ''cover_z17'',
      ''cover_z18'', ''cover_z19'', ''cover_z20'', ''cover_z21'', ''cover_z22'', ''cover_z23'',
      ''cover_z24'', ''cover_z25'', ''cover_z26'', ''cover_z27'', ''cover_z28'', ''cover_z29'']
   \<and> fst (memo_calls Map.empty calls) = map get_raster_bands calls
   \<and> fst (memo_calls Map.empty [band, band]) = [get_raster_bands band, get_raster_bands band]"
proof -
  have ok: "cache_ok Map.empty" by (simp add: cache_ok_def)
  have 1: "length (get_raster_bands band) = 30" by (simp add: get_raster_bands_def)
  have 2: "get_raster_bands ''cover_z'' =
     [''cover_z0'', ''cover_z1'', ''cover_z2'', ''cover_z3'', ''cover_z4'', ''cover_z5'',
      ''cover_z6'', ''cover_z7'', ''cover_z8'', ''cover_z9'', ''cover_z10'', ''cover_z11'',
      ''cover_z12'', ''cover_z13'', ''cover_z14'', ''cover_z15'', ''cover_z16'', ''cover_z17'',
      ''cover_z18'', ''cover_z19'', ''cover_z20'', ''cover_z21'', ''cover_z22'', ''cover_z23'',
      ''cover_z24'', ''cover_z25'', ''cover_z26'', ''cover_z27'', ''cover_z28'', ''cover_z29'']"
    unfolding get_raster_bands_names by simp
  have 3: "fst (memo_calls Map.empty calls) = map get_raster_bands calls"
    using ok by (rule memo_calls_pure)
  have 4: "fst (memo_calls Map.empty [band, band]) = [get_raster_bands band, get_raster_bands band]"
    using memo_calls_pure [OF ok, of "[band, band]"] by simp
  from get_raster_bands_names [of band] 1 2 3 4 show ?thesis by blast
qed

text \<open>
  C10. The band list is one fixed list of 109 names, no two the same: 3 literals, the
  30 names of the cover_z family, 7 literals, the 30 names of the pai_z family, the 30
  names of the pavd_z family and 9 literals, in this order; delta_time and sensitivity
  are among them.
\<close>

theorem raster_bands_109_distinct_names:
  "length raster_bands = 109
   \<and> distinct raster_bands
   \<and> raster_bands =
       [''algorithmrun_flag'', ''beam'', ''cover''] @ get_raster_bands ''cover_z'' @
       [''degrade_flag'', ''delta_time'', ''fhd_normal'', ''l2b_quality_flag'',
        ''local_beam_azimuth'', ''local_beam_elevation'', ''pai''] @
       get_raster_bands ''pai_z'' @ get_raster_bands ''pavd_z'' @
       [''pgap_theta'', ''selected_l2a_algorithm'', ''selected_rg_algorithm'',
        ''sensitivity'', ''solar_azimuth'', ''solar_elevation'',
        ''minor_frame_number'', ''orbit_number'', ''shot_number_within_beam'']
   \<and> length (get_raster_bands ''cover_z'') = 30
   \<and> length (get_raster_bands ''pai_z'') = 30
   \<and> length (get_raster_bands ''pavd_z'') = 30
   \<and> ''delta_time'' \<in> set raster_bands
   \<and> ''sensitivity'' \<in> set raster_bands"
proof -
  have len: "\<And>b. length (get_raster_bands b) = 30" by (simp add: get_raster_bands_def)
  have dt: "''delta_time'' \<in> set raster_bands" unfolding raster_bands_eq by simp
  have se: "''sensitivity'' \<in> set raster_bands" unfolding raster_bands_eq by simp
  from raster_bands_length raster_bands_distinct raster_bands_eq len dt se
  show ?thesis by blast
qed

section \<open>Export construction: proofs\<close>

text \<open>
  C9. With no table asset id, export construction fails with the error of the empty
  list whatever its other arguments are (a world whose parser fails, a cell without
  projection, a month whose window cannot be computed), and
  \<open>rasterize_gedi_by_utm_zone\<close> returns this error and leaves the list of started tasks
  as it was.
\<close>

theorem create_export_empty_ids_fails_first:
  "create_export w [] raster_asset_id grid_cell_feature grill_month overwrite_flag
     = Inl NoTableAssetIds
   \<and> rasterize_gedi_by_utm_zone w tasks [] raster_asset_id grid_cell_feature grill_month
       overwrite_flag = (Inl NoTableAssetIds, tasks)"
  by (simp add: create_export_def rasterize_gedi_by_utm_zone_def)

section \<open>Python floats: proofs\<close>

lemma half_cmp:
  fixes r b t :: int
  assumes "0 \<le> r" "r < b" "odd t"
  shows "2 * r < t * b \<longleftrightarrow> (2 \<le> t \<or> (t = 1 \<and> 2 * r < b))"
proof (cases "t \<le> 0")
  case True
  with assms have "t * b \<le> 0" by (simp add: mult_le_0_iff)
  with assms True show ?thesis by auto
next
  case False
  show ?thesis
  proof (cases "t = 1")
    case True
    then show ?thesis by simp
  next
    case ne: False
    with False assms(3) have t2: "2 \<le> t" by presburger
    from assms have "0 < b" by simp
    with t2 have "2 * b \<le> t * b" by simp
    with assms have "2 * r < t * b" by linarith
    with t2 show ?thesis by simp
  qed
qed

lemma round_half_even_less_even:
  fixes a b M :: int
  assumes b: "0 < b" and M: "even M"
  shows "round_half_even a b < M \<longleftrightarrow> 2 * a < (2 * M - 1) * b"
proof -
  define q where "q = a div b"
  define r where "r = a mod b"
  have a: "a = q * b + r" by (simp add: q_def r_def)
  have r: "0 \<le> r" "r < b" using b by (simp_all add: r_def)
  define t where "t = 2 * M - 1 - 2 * q"
  have "odd t" by (simp add: t_def)
  have "2 * a < (2 * M - 1) * b \<longleftrightarrow> 2 * r < t * b"
    by (simp add: a t_def algebra_simps)
  also have "\<dots> \<longleftrightarrow> (2 \<le> t \<or> (t = 1 \<and> 2 * r < b))"
    using half_cmp [OF r \<open>odd t\<close>] .
  also have "\<dots> \<longleftrightarrow> (q \<le> M - 2 \<or> (q = M - 1 \<and> 2 * r < b))"
    by (auto simp: t_def)
  also have "\<dots> \<longleftrightarrow> round_half_even a b < M"
  proof -
    have ev: "even q \<Longrightarrow> q < M \<longleftrightarrow> q \<le> M - 2" using M by presburger
    show ?thesis
      using ev by (auto simp: round_half_even_def Let_def q_def [symmetric] r_def [symmetric])
  qed
  finally show ?thesis by simp
qed

lemma round_half_even_one: "round_half_even a 1 = a"
  by (simp add: round_half_even_def)

lemma round_half_even_ge:
  fixes a b c :: int
  assumes "0 < b" "c * b \<le> a"
  shows "c \<le> round_half_even a b"
proof -
  define q where "q = a div b"
  define r where "r = a mod b"
  have a: "a = q * b + r" by (simp add: q_def r_def)
  have r: "0 \<le> r" "r < b" using assms by (simp_all add: r_def)
  have "(q + 1) * b = q * b + b" by (simp add: algebra_simps)
  then have "c * b < (q + 1) * b" using a r assms by linarith
  then have "c < q + 1" using assms(1) by (simp add: mult_less_cancel_right)
  then show ?thesis
    by (auto simp: round_half_even_def Let_def q_def [symmetric] r_def [symmetric])
qed

lemma round_half_even_le:
  fixes a b c :: int
  assumes "0 < b" "a \<le> c * b"
  shows "round_half_even a b \<le> c"
proof -
  define q where "q = a div b"
  define r where "r = a mod b"
  have a: "a = q * b + r" by (simp add: q_def r_def)
  have r: "0 \<le> r" "r < b" using assms by (simp_all add: r_def)
  have "q * b \<le> c * b" using a r assms by linarith
  then have qc: "q \<le> c" using assms(1) by (simp add: mult_le_cancel_right)
  have "q = c \<longrightarrow> r = 0" using a r assms by auto
  with qc have "q \<le> c \<and> (q = c \<longrightarrow> r = 0)" by simp
  then show ?thesis using assms r
    by (auto simp: round_half_even_def Let_def q_def [symmetric] r_def [symmetric])
qed

lemma scale_up_spec:
  "0 < p \<Longrightarrow> 0 < q \<Longrightarrow>
     2 ^ 52 * q \<le> p * 2 ^ scale_up p q \<and>
     (p < 2 ^ 52 * q \<longrightarrow> p * 2 ^ scale_up p q < 2 ^ 53 * q) \<and>
     (2 ^ 52 * q \<le> p \<longrightarrow> scale_up p q = 0)"
proof (induction p q rule: scale_up.induct)
  case (1 p q)
  show ?case
  proof (cases "2 ^ 52 * q \<le> p")
    case True
    then show ?thesis by (simp add: scale_up.simps [of p q])
  next
    case False
    with "1.prems" have IH: "2 ^ 52 * q \<le> (2 * p) * 2 ^ scale_up (2 * p) q"
      "(2 * p < 2 ^ 52 * q \<longrightarrow> (2 * p) * 2 ^ scale_up (2 * p) q < 2 ^ 53 * q)"
      "(2 ^ 52 * q \<le> 2 * p \<longrightarrow> scale_up (2 * p) q = 0)"
      using "1.IH" by auto
    have su: "scale_up p q = Suc (scale_up (2 * p) q)"
      using False "1.prems" by (simp add: scale_up.simps [of p q])
    show ?thesis using IH False unfolding su by (cases "2 * p < 2 ^ 52 * q") auto
  qed
qed


lemma scale_down_spec:
  "0 < p \<Longrightarrow> 0 < q \<Longrightarrow>
     p < 2 ^ 53 * (q * 2 ^ scale_down p q) \<and>
     (2 ^ 53 * q \<le> p \<longrightarrow> 2 ^ 52 * (q * 2 ^ scale_down p q) \<le> p) \<and>
     (p < 2 ^ 53 * q \<longrightarrow> scale_down p q = 0)"
proof (induction p q rule: scale_down.induct)
  case (1 p q)
  show ?case
  proof (cases "p < 2 ^ 53 * q")
    case True
    then show ?thesis by (simp add: scale_down.simps [of p q])
  next
    case False
    with "1.prems" have IH: "p < 2 ^ 53 * ((2 * q) * 2 ^ scale_down p (2 * q))"
      "(2 ^ 53 * (2 * q) \<le> p \<longrightarrow> 2 ^ 52 * ((2 * q) * 2 ^ scale_down p (2 * q)) \<le> p)"
      "(p < 2 ^ 53 * (2 * q) \<longrightarrow> scale_down p (2 * q) = 0)"
      using "1.IH" by auto
    have sd: "scale_down p q = Suc (scale_down p (2 * q))"
      using False "1.prems" by (simp add: scale_down.simps [of p q])
    show ?thesis using IH False unfolding sd by (cases "p < 2 ^ 53 * (2 * q)") auto
  qed
qed


lemma threshold_int_form:   fixes a b :: int 
  shows "2 * (a * 2 ^ 53) < (2 * 8556839292003942 - 1) * b \<longleftrightarrow> a * 2 ^ 54 < 17113678584007883 * b" by (simp add: mult.commute)

lemma threshold_rat_form: 
  fixes a b :: int and x :: rat
  assumes b: "0 < b" and x: "x = of_int a / of_int b"
  shows "a * 2 ^ 54 < 17113678584007883 * b \<longleftrightarrow> x < 17113678584007883 / 2 ^ 54"
proof -
  have "a * 2 ^ 54 < 17113678584007883 * b \<longleftrightarrow> (of_int (a * 2 ^ 54) :: rat) < of_int (17113678584007883 * b)"
    by (simp only: of_int_less_iff)
  also have "\<dots> \<longleftrightarrow> x < 17113678584007883 / 2 ^ 54"
    using b by (simp add: x divide_less_eq mult.commute)
  finally show ?thesis .
qed

lemma round_unit_small_exponent:
  fixes a b m :: int
  assumes a: "0 < a" and b: "0 < b" and u: "u \<le> 52" and lo: "2 ^ 52 * b \<le> a * 2 ^ u" and m_lo: "2 ^ 52 \<le> m"
  shows "\<not> a * 2 ^ 54 < 17113678584007883 * b" "\<not> (of_int m :: rat) / 2 ^ u < 8556839292003942 / 2 ^ 53"
proof -
  have p: "(2::int) ^ u \<le> 2 ^ 52" using u by (rule power_increasing) simp
  have "a * 2 ^ u \<le> a * 2 ^ 52" using p by (rule mult_left_mono) (use a in simp)
  with lo have "2 ^ 52 * b \<le> 2 ^ 52 * a" by (simp add: mult.commute)
  then have "b \<le> a" by simp
  then show "\<not> a * 2 ^ 54 < 17113678584007883 * b" using b by simp
  have "(2::rat) ^ u \<le> 2 ^ 52" using u by (rule power_increasing) simp
  moreover have "(2::rat) ^ 52 \<le> of_int m" using m_lo by (metis of_int_le_iff of_int_numeral of_int_power)
  ultimately have "(2::rat) ^ u \<le> of_int m" by (rule order_trans)
  then have "1 \<le> (of_int m :: rat) / 2 ^ u" by (simp add: le_divide_eq)
  moreover have "(8556839292003942 / 2 ^ 53 :: rat) < 1" by simp
  ultimately show "\<not> (of_int m :: rat) / 2 ^ u < 8556839292003942 / 2 ^ 53" by linarith
qed

lemma round_unit_large_exponent:
  fixes a b m :: int
  assumes a: "0 < a" and b: "0 < b" and u: "54 \<le> u" and hi: "a * 2 ^ u < 2 ^ 53 * b" and m_hi: "m \<le> 2 ^ 53"
  shows "a * 2 ^ 54 < 17113678584007883 * b" "(of_int m :: rat) / 2 ^ u < 8556839292003942 / 2 ^ 53"
proof -
  have p: "(2::int) ^ 54 \<le> 2 ^ u" using u by (rule power_increasing) simp
  have "a * 2 ^ 54 \<le> a * 2 ^ u" using p by (rule mult_left_mono) (use a in simp)
  from this hi have "a * 2 ^ 54 < 2 ^ 53 * b" by (rule le_less_trans)
  then show "a * 2 ^ 54 < 17113678584007883 * b" using b by simp
  have pr: "(2::rat) ^ 54 \<le> 2 ^ u" using u by (rule power_increasing) simp
  have "(of_int m :: rat) \<le> 2 ^ 53" using m_hi by (metis of_int_le_iff of_int_numeral of_int_power)
  then have "(of_int m :: rat) * 2 \<le> 2 ^ 54" by simp
  then have "(of_int m :: rat) * 2 \<le> 2 ^ u" using pr by (rule order_trans)
  then have "(of_int m :: rat) / 2 ^ u \<le> 1 / 2" by (simp add: divide_le_eq)
  moreover have "(1 / 2 :: rat) < 8556839292003942 / 2 ^ 53" by simp
  ultimately show "(of_int m :: rat) / 2 ^ u < 8556839292003942 / 2 ^ 53" by linarith
qed

lemma round64_095: "round64 (95 / 100) = 8556839292003942 / 2 ^ 53"
  by code_simp

lemma round64_zero: "round64 0 = 0"
  by (simp add: round64_def)

lemma round_pos_unit_less:
  fixes a b :: int
  assumes a: "0 < a" and ab: "a \<le> b"
  shows "round_pos a b < 8556839292003942 / 2 ^ 53 \<longleftrightarrow> a * 2 ^ 54 < 17113678584007883 * b"
proof -
  have b: "0 < b" using a ab by simp
  define u where "u = scale_up a b"
  define m where "m = round_half_even (a * 2 ^ u) b"
  have lt: "a < 2 ^ 52 * b" using a ab by simp
  have "a < 2 ^ 53 * b" using a ab by simp
  then have d0: "scale_down a b = 0" using scale_down_spec [OF a b] by simp
  have lo: "2 ^ 52 * b \<le> a * 2 ^ u" and hi: "a * 2 ^ u < 2 ^ 53 * b"
    using scale_up_spec [OF a b] lt by (simp_all add: u_def)
  have m_lo: "2 ^ 52 \<le> m" unfolding m_def
    by (rule round_half_even_ge [OF b]) (use lo in simp)
  have m_hi: "m \<le> 2 ^ 53" unfolding m_def
    by (rule round_half_even_le [OF b]) (use hi in simp)
  have val: "round_pos a b = of_int m / 2 ^ u"
    unfolding round_pos_def Let_def d0 u_def [symmetric] m_def by simp
  consider "u \<le> 52" | "u = 53" | "54 \<le> u" by linarith
  then show ?thesis
  proof cases
    case 1
    show ?thesis unfolding val using round_unit_small_exponent [OF a b 1 lo m_lo] by blast
  next
    case 2
    have "(of_int m :: rat) / 2 ^ 53 < 8556839292003942 / 2 ^ 53 \<longleftrightarrow> m < 8556839292003942"
      by (simp add: divide_less_cancel)
    also have "\<dots> \<longleftrightarrow> 2 * (a * 2 ^ 53) < (2 * 8556839292003942 - 1) * b"
      unfolding m_def 2 by (rule round_half_even_less_even [OF b]) simp
    also have "\<dots> \<longleftrightarrow> a * 2 ^ 54 < 17113678584007883 * b" by (rule threshold_int_form)
    finally show ?thesis unfolding val 2 .
  next
    case 3
    show ?thesis unfolding val using round_unit_large_exponent [OF a b 3 hi m_hi] by blast
  qed
qed


lemma float_0_95_val: "float_0_95 = 8556839292003942 / 2 ^ 53"
  unfolding float_0_95_def by (rule round64_095)

lemma py_truediv_less_095:
  fixes k n :: nat
  assumes n: "0 < n" and kn: "k \<le> n"
  shows "py_truediv (int k) (int n) < float_0_95 \<longleftrightarrow> k * 2 ^ 54 < 17113678584007883 * n"
proof (cases "k = 0")
  case True
  then show ?thesis using n by (simp add: py_truediv_def float_0_95_val round64_zero)
next
  case False
  define x :: rat where "x = of_int (int k) / of_int (int n)"
  obtain a b where q: "quotient_of x = (a, b)" by (cases "quotient_of x")
  have b: "0 < b" using q by (rule quotient_of_denom_pos)
  have x: "x = of_int a / of_int b" using q by (rule quotient_of_div)
  have xpos: "0 < x" using False n by (simp add: x_def)
  have xle: "x \<le> 1" using kn n by (simp add: x_def)
  have a: "0 < a" using xpos b by (simp add: x zero_less_divide_iff)
  have ab: "a \<le> b" using xle b by (simp add: x divide_le_eq)
  have "round64 x = round_pos a b" using a by (simp add: round64_def q)
  then have "round64 x < float_0_95 \<longleftrightarrow> a * 2 ^ 54 < 17113678584007883 * b"
    using round_pos_unit_less [OF a ab] by (simp only: float_0_95_val)
  also have "\<dots> \<longleftrightarrow> x < 17113678584007883 / 2 ^ 54"
    using b x by (rule threshold_rat_form)
  also have "\<dots> \<longleftrightarrow> int k * 2 ^ 54 < 17113678584007883 * int n"
    by (rule threshold_rat_form [symmetric]) (use n in \<open>simp_all add: x_def\<close>)
  also have "\<dots> \<longleftrightarrow> int (k * 2 ^ 54) < int (17113678584007883 * n)"
    by simp
  also have "\<dots> \<longleftrightarrow> k * 2 ^ 54 < 17113678584007883 * n"
    by (simp only: of_nat_less_iff)
  finally show ?thesis by (simp only: py_truediv_def x_def)
qed

lemma coverage_exact_ge:
  fixes k n :: nat
  assumes "0 < n" "k \<le> n" "19 * n \<le> 20 * k"
  shows "\<not> py_truediv (int k) (int n) < float_0_95"
  using assms by (simp add: py_truediv_less_095)

lemma coverage_exact_less:
  fixes k n :: nat
  assumes "0 < n" "k \<le> n" "20 * k < 19 * n" "n < 2 ^ 48"
  shows "py_truediv (int k) (int n) < float_0_95"
  using assms by (simp add: py_truediv_less_095)

section \<open>The month window: proofs\<close>

lemma days_in_month_ge:
  assumes "1 \<le> m" "m \<le> 12"
  shows "28 \<le> days_in_month y m"
proof -
  from assms have "m = 1 \<or> m = 2 \<or> m = 3 \<or> m = 4 \<or> m = 5 \<or> m = 6 \<or> m = 7 \<or> m = 8
      \<or> m = 9 \<or> m = 10 \<or> m = 11 \<or> m = 12" by arith
  then show ?thesis by (auto simp: days_in_month_def mdays_def)
qed

lemma month_window_value:
  assumes v: "valid_datetime g" and ok: "\<not> (year g = 9999 \<and> month g = 12)"
  shows "month_window g =
     Inr (g\<lparr>day := 1\<rparr>,
          g\<lparr>year := (if month g = 12 then year g + 1 else year g),
            month := (if month g = 12 then 1 else month g + 1),
            day := 1\<rparr>)"
proof -
  from v have m: "1 \<le> month g" "month g \<le> 12" and y: "year g \<le> 9999"
    by (simp_all add: valid_datetime_def)
  show ?thesis
  proof (cases "month g = 12")
    case True
    with ok y have "year g + 1 \<le> 9999" by simp
    moreover have "28 \<le> days_in_month (year g + 1) 1" by (rule days_in_month_ge) simp_all
    ultimately show ?thesis using True
      by (simp add: month_window_def add_one_month_def replace_day_1_def Let_def min_def)
  next
    case False
    with m have "month g + 1 \<le> 12" by simp
    then have "28 \<le> days_in_month (year g) (month g + 1)" by (intro days_in_month_ge) simp_all
    then show ?thesis using False y m
      by (simp add: month_window_def add_one_month_def replace_day_1_def Let_def min_def)
  qed
qed

lemma month_window_overflow:
  assumes "year g = 9999" "month g = 12"
  shows "month_window g = Inl YearOutOfRange"
  using assms by (simp add: month_window_def add_one_month_def replace_day_1_def Let_def)

text \<open>
  What lines 144 to 146 compute for a valid target datetime, whatever its time of day.
\<close>

lemma month_window_computed:
  assumes "valid_datetime grill_month"
  shows "(year grill_month = 9999 \<and> month grill_month = 12 \<longrightarrow>
            month_window grill_month = Inl YearOutOfRange)
       \<and> (\<not> (year grill_month = 9999 \<and> month grill_month = 12) \<longrightarrow>
            (\<exists>month_start month_end.
               month_window grill_month = Inr (month_start, month_end)
               \<and> month_start = grill_month\<lparr>day := 1\<rparr>
               \<and> day month_start = 1
               \<and> hour month_start = hour grill_month
               \<and> minute month_start = minute grill_month
               \<and> second month_start = second grill_month
               \<and> microsecond month_start = microsecond grill_month
               \<and> month_end = month_start
                    \<lparr>year := (if month grill_month = 12 then year grill_month + 1
                               else year grill_month),
                     month := (if month grill_month = 12 then 1 else month grill_month + 1)\<rparr>
               \<and> dt_less month_start month_end
               \<and> valid_datetime month_start \<and> valid_datetime month_end))"
proof (intro conjI impI)
  assume "year grill_month = 9999 \<and> month grill_month = 12"
  then show "month_window grill_month = Inl YearOutOfRange"
    by (simp add: month_window_overflow)
next
  assume ok: "\<not> (year grill_month = 9999 \<and> month grill_month = 12)"
  let ?ms = "grill_month\<lparr>day := 1\<rparr>"
  let ?me = "?ms\<lparr>year := (if month grill_month = 12 then year grill_month + 1
                               else year grill_month),
                     month := (if month grill_month = 12 then 1 else month grill_month + 1)\<rparr>"
  from assms have m: "1 \<le> month grill_month" "month grill_month \<le> 12"
    and y: "1 \<le> year grill_month" "year grill_month \<le> 9999"
    by (simp_all add: valid_datetime_def)
  have w: "month_window grill_month = Inr (?ms, ?me)"
    using month_window_value [OF assms ok] by simp
  have lt: "dt_less ?ms ?me" using m by (simp add: dt_less_def dt_fields_def)
  have d1: "28 \<le> days_in_month (year grill_month) (month grill_month)"
    using m by (rule days_in_month_ge)
  have v1: "valid_datetime ?ms" using assms d1 by (simp add: valid_datetime_def)
  have v2: "valid_datetime ?me"
  proof (cases "month grill_month = 12")
    case True
    have "28 \<le> days_in_month (year grill_month + 1) 1" by (rule days_in_month_ge) simp_all
    then show ?thesis using True assms ok y by (simp add: valid_datetime_def)
  next
    case False
    with m have "month grill_month + 1 \<le> 12" by simp
    then have "28 \<le> days_in_month (year grill_month) (month grill_month + 1)"
      by (intro days_in_month_ge) simp_all
    then show ?thesis using False assms m by (simp add: valid_datetime_def)
  qed
  from w lt v1 v2
  show "\<exists>month_start month_end.
               month_window grill_month = Inr (month_start, month_end)
               \<and> month_start = grill_month\<lparr>day := 1\<rparr>
               \<and> day month_start = 1
               \<and> hour month_start = hour grill_month
               \<and> minute month_start = minute grill_month
               \<and> second month_start = second grill_month
               \<and> microsecond month_start = microsecond grill_month
               \<and> month_end = month_start
                    \<lparr>year := (if month grill_month = 12 then year grill_month + 1
                               else year grill_month),
                     month := (if month grill_month = 12 then 1 else month grill_month + 1)\<rparr>
               \<and> dt_less month_start month_end
               \<and> valid_datetime month_start \<and> valid_datetime month_end"
    by simp
qed

text \<open>
  For a target at 00:00 that is not in December 9999 the window is the calendar month:
  it starts on day 1 at 00:00 and ends on day 1 at 00:00 of the next month, which is
  January of the next year after December. For a target in December 9999 the end cannot
  be computed, the year being limited to 9999.
\<close>

lemma month_window_of_midnight:
  assumes v: "valid_datetime grill_month"
    and midnight: "hour grill_month = 0" "minute grill_month = 0" "second grill_month = 0"
      "microsecond grill_month = 0"
    and ok: "\<not> (year grill_month = 9999 \<and> month grill_month = 12)"
  shows "month_window grill_month =
     Inr (datetime_ymd (year grill_month) (month grill_month) 1,
          datetime_ymd (if month grill_month = 12 then year grill_month + 1
                         else year grill_month)
                       (if month grill_month = 12 then 1 else month grill_month + 1) 1)"
    and "dt_less (datetime_ymd (year grill_month) (month grill_month) 1)
          (datetime_ymd (if month grill_month = 12 then year grill_month + 1
                         else year grill_month)
                       (if month grill_month = 12 then 1 else month grill_month + 1) 1)"
proof -
  show "month_window grill_month =
     Inr (datetime_ymd (year grill_month) (month grill_month) 1,
          datetime_ymd (if month grill_month = 12 then year grill_month + 1
                         else year grill_month)
                       (if month grill_month = 12 then 1 else month grill_month + 1) 1)"
    unfolding month_window_value [OF v ok] using midnight
    by (cases grill_month) (simp add: datetime_ymd_def)
  from v have "month grill_month \<le> 12" by (simp add: valid_datetime_def)
  then show "dt_less (datetime_ymd (year grill_month) (month grill_month) 1)
          (datetime_ymd (if month grill_month = 12 then year grill_month + 1
                         else year grill_month)
                       (if month grill_month = 12 then 1 else month grill_month + 1) 1)"
    by (simp add: dt_less_def dt_fields_def datetime_ymd_def)
qed

lemma month_window_december_9999:
  "month_window \<lparr>year = 9999, month = 12, day = 1, hour = 0, minute = 0, second = 0,
                  microsecond = 0\<rparr> = Inl YearOutOfRange"
  by (simp add: month_window_overflow)

text \<open>
  C2, at a target with a time of day. The claim holds of every target at 00:00 outside
  December 9999, as shown above. For the target 2020-03-15T12:30 the window starts on
  2020-03-01 at 12:30, not at 00:00, and ends on 2020-04-01 at 12:30: line 144 sets the
  day to 1 and leaves the time of day. With this window a table dated 2020-03-01T00:00
  is not in the requested month and a table dated 2020-04-01T00:00 is.
\<close>

theorem month_window_keeps_time_of_day:
  "month_window \<lparr>year = 2020, month = 3, day = 15, hour = 12, minute = 30, second = 0,
                  microsecond = 0\<rparr> =
     Inr (\<lparr>year = 2020, month = 3, day = 1, hour = 12, minute = 30, second = 0,
           microsecond = 0\<rparr>,
          \<lparr>year = 2020, month = 4, day = 1, hour = 12, minute = 30, second = 0,
           microsecond = 0\<rparr>)
   \<and> \<not> in_month
        \<lparr>year = 2020, month = 3, day = 1, hour = 12, minute = 30, second = 0,
          microsecond = 0\<rparr>
        \<lparr>year = 2020, month = 4, day = 1, hour = 12, minute = 30, second = 0,
          microsecond = 0\<rparr>
        (datetime_ymd 2020 3 1)
   \<and> in_month
        \<lparr>year = 2020, month = 3, day = 1, hour = 12, minute = 30, second = 0,
          microsecond = 0\<rparr>
        \<lparr>year = 2020, month = 4, day = 1, hour = 12, minute = 30, second = 0,
          microsecond = 0\<rparr>
        (datetime_ymd 2020 4 1)"
  by (simp add: month_window_def add_one_month_def replace_day_1_def Let_def
      days_in_month_def mdays_def isleap_def in_month_def dt_ge_def dt_less_def
      dt_fields_def datetime_ymd_def)

section \<open>The Earth Engine objects: proofs\<close>

lemma find_first_is_least:
  fixes f :: "'a \<Rightarrow> 'b::linorder"
  assumes "sorted (map f xs)" "find P xs = Some y" "x \<in> set xs" "P x"
  shows "f y \<le> f x"
  using assms
proof (induction xs)
  case Nil
  then show ?case by simp
next
  case (Cons a xs)
  show ?case
  proof (cases "P a")
    case True
    with Cons.prems have "y = a" by simp
    with Cons.prems show ?thesis by auto
  next
    case False
    with Cons.prems have "find P xs = Some y" "x \<in> set xs" "sorted (map f xs)" by auto
    then show ?thesis using Cons.IH Cons.prems(4) by blast
  qed
qed

lemma find_exists:
  assumes "x \<in> set xs" "P x"
  shows "\<exists>y. find P xs = Some y \<and> y \<in> set xs \<and> P y"
proof (cases "find P xs")
  case None
  with assms show ?thesis by (auto simp: find_None_iff)
next
  case (Some y)
  then show ?thesis by (auto simp: find_Some_iff)
qed

lemma select_bands_some:
  assumes "set names \<subseteq> band_name ` set bs"
  shows "\<exists>sel. select_bands bs names = Some sel \<and> map band_name sel = names \<and> set sel \<subseteq> set bs"
  using assms
proof (induction names)
  case Nil
  then show ?case by simp
next
  case (Cons n names)
  then obtain sel where sel: "select_bands bs names = Some sel" "map band_name sel = names"
    "set sel \<subseteq> set bs" by auto
  from Cons.prems obtain b0 where "b0 \<in> set bs" "band_name b0 = n" by auto
  then obtain b where b: "find (\<lambda>b. band_name b = n) bs = Some b" "b \<in> set bs" "band_name b = n"
    using find_exists [of b0 bs "\<lambda>b. band_name b = n"] by auto
  show ?case using sel b by simp
qed

lemma add_band_overwrite_names:
  "band_name b \<in> band_name ` set dst \<Longrightarrow>
     map band_name (add_band_overwrite dst b) = map band_name dst"
  by (auto simp: add_band_overwrite_def)

lemma foldl_add_band_overwrite:
  assumes "distinct (map band_name src)" "band_name ` set src \<subseteq> band_name ` set dst"
  shows "foldl add_band_overwrite dst src =
           map (\<lambda>d. case find (\<lambda>b. band_name b = band_name d) src of
                       None \<Rightarrow> d | Some b \<Rightarrow> b) dst"
  using assms
proof (induction src arbitrary: dst)
  case Nil
  then show ?case by simp
next
  case (Cons b src)
  let ?dst1 = "add_band_overwrite dst b"
  from Cons.prems have bin: "band_name b \<in> band_name ` set dst" by simp
  then have dst1: "?dst1 = map (\<lambda>d. if band_name d = band_name b then b else d) dst"
    by (simp add: add_band_overwrite_def)
  have names1: "band_name ` set ?dst1 = band_name ` set dst"
    using add_band_overwrite_names [OF bin] by (metis set_map)
  from Cons.prems have d: "distinct (map band_name src)"
    and sub: "band_name ` set src \<subseteq> band_name ` set ?dst1"
    and fresh: "band_name b \<notin> band_name ` set src"
    using names1 by auto
  have nofind: "find (\<lambda>x. band_name x = band_name b) src = None"
    unfolding find_None_iff using fresh by (metis imageI)
  have "foldl add_band_overwrite dst (b # src) = foldl add_band_overwrite ?dst1 src" by simp
  also have "\<dots> = map (\<lambda>d. case find (\<lambda>b. band_name b = band_name d) src of
                       None \<Rightarrow> d | Some b \<Rightarrow> b) ?dst1"
    by (rule Cons.IH [OF d sub])
  also have "\<dots> = map (\<lambda>d. case find (\<lambda>x. band_name x = band_name d) (b # src) of
                       None \<Rightarrow> d | Some x \<Rightarrow> x) dst"
    unfolding dst1 using nofind by (auto split: option.splits)
  finally show ?case .
qed

lemma cast_types_value:
  assumes dist: "distinct (map band_name (bands img))"
    and sub: "set int_bands \<subseteq> band_name ` set (bands img)"
  shows "cast_types img =
     Inr (img\<lparr>bands := map (\<lambda>b. b\<lparr>band_type :=
                 (if band_name b \<in> set int_bands then Int32 else Double)\<rparr>) (bands img)\<rparr>)"
proof -
  let ?bs = "bands img"
  obtain sel where sel: "select_bands ?bs int_bands = Some sel" "map band_name sel = int_bands"
    "set sel \<subseteq> set ?bs" using select_bands_some [OF sub] by blast
  let ?src = "map (\<lambda>b. b\<lparr>band_type := Int32\<rparr>) sel"
  let ?dst = "map (\<lambda>b. b\<lparr>band_type := Double\<rparr>) ?bs"
  have src_names: "map band_name ?src = int_bands" using sel(2) by (simp add: comp_def)
  have dst_names: "map band_name ?dst = map band_name ?bs" by (simp add: comp_def)
  have di: "distinct int_bands"
    unfolding int_bands_def using raster_bands_distinct by (rule distinct_filter)
  have d1: "distinct (map band_name ?src)" using di src_names by simp
  have s1: "band_name ` set ?src \<subseteq> band_name ` set ?dst"
  proof -
    have "band_name ` set ?src = set int_bands" using src_names by (metis set_map)
    moreover have "band_name ` set ?dst = band_name ` set ?bs" using dst_names by (metis set_map)
    ultimately show ?thesis using sub by simp
  qed
  have inj: "\<And>x y. x \<in> set ?bs \<Longrightarrow> y \<in> set ?bs \<Longrightarrow> band_name x = band_name y \<Longrightarrow> x = y"
    using dist by (meson distinct_map inj_onD)
  have upd: "\<And>b. b \<in> set ?bs \<Longrightarrow>
      (case find (\<lambda>x. band_name x = band_name (b\<lparr>band_type := Double\<rparr>)) ?src of
         None \<Rightarrow> b\<lparr>band_type := Double\<rparr> | Some x \<Rightarrow> x)
      = b\<lparr>band_type := (if band_name b \<in> set int_bands then Int32 else Double)\<rparr>"
  proof -
    fix b assume b: "b \<in> set ?bs"
    show "(case find (\<lambda>x. band_name x = band_name (b\<lparr>band_type := Double\<rparr>)) ?src of
         None \<Rightarrow> b\<lparr>band_type := Double\<rparr> | Some x \<Rightarrow> x)
      = b\<lparr>band_type := (if band_name b \<in> set int_bands then Int32 else Double)\<rparr>"
    proof (cases "find (\<lambda>x. band_name x = band_name b) ?src")
      case None
      then have "band_name b \<notin> band_name ` set ?src" by (auto simp: find_None_iff)
      then have "band_name b \<notin> set int_bands" using src_names by (metis set_map)
      then show ?thesis using None by simp
    next
      case (Some x)
      then have x: "x \<in> set ?src" "band_name x = band_name b" by (auto simp: find_Some_iff)
      then obtain b0 where b0: "b0 \<in> set sel" "x = b0\<lparr>band_type := Int32\<rparr>" by auto
      with x sel(3) have "b0 \<in> set ?bs" "band_name b0 = band_name b" by auto
      with b have "b0 = b" using inj [of b0 b] by simp
      have "band_name x \<in> set int_bands" using x(1) src_names by (metis imageI set_map)
      then have "band_name b \<in> set int_bands" using x(2) by simp
      then show ?thesis using Some b0 \<open>b0 = b\<close> by simp
    qed
  qed
  have "foldl add_band_overwrite ?dst ?src =
          map (\<lambda>d. case find (\<lambda>b. band_name b = band_name d) ?src of
                       None \<Rightarrow> d | Some b \<Rightarrow> b) ?dst"
    using d1 s1 by (rule foldl_add_band_overwrite)
  also have "\<dots> = map (\<lambda>b. b\<lparr>band_type :=
                 (if band_name b \<in> set int_bands then Int32 else Double)\<rparr>) ?bs"
    unfolding map_map comp_def by (rule map_cong [OF refl]) (rule upd)
  finally have fold: "foldl add_band_overwrite ?dst ?src =
      map (\<lambda>b. b\<lparr>band_type :=
                 (if band_name b \<in> set int_bands then Int32 else Double)\<rparr>) ?bs" .
  show ?thesis
    using sel(1) fold
    by (simp add: cast_types_def select_image_def addBands_overwrite_def toDouble_def toInt_def)
qed

lemma int_bands_iff:
  "name \<in> set int_bands \<longleftrightarrow> name \<in> set raster_bands \<and> name \<in> INTEGER_PROPS"
  by (auto simp: int_bands_def)

lemma cast_types_raster:
  assumes names: "map band_name (bands img) = raster_bands"
  shows "cast_types img =
     Inr (img\<lparr>bands := map (\<lambda>b. b\<lparr>band_type :=
                 (if band_name b \<in> INTEGER_PROPS then Int32 else Double)\<rparr>) (bands img)\<rparr>)"
proof -
  have dist: "distinct (map band_name (bands img))"
    using names raster_bands_distinct by simp
  have set_names: "band_name ` set (bands img) = set raster_bands"
    using names by (metis set_map)
  have sub: "set int_bands \<subseteq> band_name ` set (bands img)"
    unfolding set_names by (auto simp: int_bands_def)
  have "map (\<lambda>b. b\<lparr>band_type := (if band_name b \<in> set int_bands then Int32 else Double)\<rparr>)
          (bands img)
      = map (\<lambda>b. b\<lparr>band_type := (if band_name b \<in> INTEGER_PROPS then Int32 else Double)\<rparr>)
          (bands img)"
  proof (rule map_cong [OF refl])
    fix b assume "b \<in> set (bands img)"
    then have "band_name b \<in> set raster_bands" using set_names by auto
    then show "b\<lparr>band_type := (if band_name b \<in> set int_bands then Int32 else Double)\<rparr>
      = b\<lparr>band_type := (if band_name b \<in> INTEGER_PROPS then Int32 else Double)\<rparr>"
      by (simp add: int_bands_iff)
  qed
  then show ?thesis using cast_types_value [OF dist sub] by simp
qed

lemma build_export_value:
  assumes "cell_crs cell = Some c"
  shows "build_export w ids r cell g ms me ov =
     Inr \<lparr>asset_id = r,
          image_ee =
            \<lparr>bands = map (\<lambda>name. \<lparr>band_name = name,
                        band_type = (if name \<in> INTEGER_PROPS then Int32 else Double),
                        band_source = first_at w c 25 (export_shots w ids cell ms me)\<rparr>)
                      raster_bands,
             properties = Some \<lparr>prop_month = month g, prop_year = year g, prop_version = 1,
                     prop_time_start = timestamp_ms_for_datetime w ms,
                     prop_time_end = timestamp_ms_for_datetime w me,
                     prop_table_asset_ids = ids\<rparr>,
             clipped_to = Some (export_box w cell)\<rparr>,
          pyramiding_policy = [(''.default'', ''sample'')],
          crs = c,
          region = export_box w cell,
          overwrite = ov\<rparr>"
proof -
  let ?img = "set_properties \<lparr>prop_month = month g, prop_year = year g, prop_version = 1,
                     prop_time_start = timestamp_ms_for_datetime w ms,
                     prop_time_end = timestamp_ms_for_datetime w me,
                     prop_table_asset_ids = ids\<rparr>
        (reduceToImage_first w raster_bands c 25 (export_shots w ids cell ms me))"
  have names: "map band_name (bands ?img) = raster_bands"
    by (simp add: set_properties_def reduceToImage_first_def comp_def)
  show ?thesis
    using assms cast_types_raster [OF names]
    by (simp add: build_export_def Let_def clip_def
        set_properties_def reduceToImage_first_def comp_def)
qed

lemma build_export_no_crs:
  assumes "cell_crs cell = None"
  shows "build_export w ids r cell g ms me ov = Inl EngineError"
  using assms by (simp add: build_export_def Let_def)

lemma create_export_checked:
  assumes "ids \<noteq> []" "parse_all (strptime w) ids = Inr dts" "month_window g = Inr (ms, me)"
  shows "create_export w ids r cell g ov =
     (case check_month g ms me dts of
        Inl e \<Rightarrow> Inl e
      | Inr _ \<Rightarrow> build_export w ids r cell g ms me ov)"
  using assms by (simp add: create_export_def)

section \<open>Evaluations in the small world\<close>

lemma parse_march: "parse_date_from_gedi_filename example_strptime march_id = Inr (datetime_ymd 2020 3 1)"
  by code_simp

lemma parse_april: "parse_date_from_gedi_filename example_strptime april_id = Inr (datetime_ymd 2020 4 1)"
  by code_simp

lemma window_march: "month_window (datetime_ymd 2020 3 1) = Inr (datetime_ymd 2020 3 1, datetime_ymd 2020 4 1)"
  by code_simp

lemma parse_all_length:
  "parse_all sp ids = Inr dts \<Longrightarrow> length dts = length ids"
  by (induction ids arbitrary: dts) (auto split: sum.splits)

lemma epoch_march: "gedi_deltatime_epoch (datetime_ymd 2020 3 1) = 68256000"
  by code_simp

lemma epoch_april: "gedi_deltatime_epoch (datetime_ymd 2020 4 1) = 70934400"
  by code_simp

lemma epoch_2018: "gedi_deltatime_epoch (datetime_ymd 2018 1 1) = 0"
  by code_simp

section \<open>The month checks: proofs\<close>

lemma in_month_iff_not_outside:
  "in_month ms me d \<longleftrightarrow> \<not> outside_month ms me d"
  by (auto simp: in_month_def outside_month_def dt_ge_def)

lemma right_month_empty_iff:
  "length (right_month_dts ms me dts) = 0 \<longleftrightarrow> list_all (outside_month ms me) dts"
  by (auto simp: right_month_dts_def list_all_iff filter_empty_conv in_month_iff_not_outside)

lemma right_month_le: "length (right_month_dts ms me dts) \<le> length dts"
  by (simp add: right_month_dts_def)

lemma check_month_all_outside:
  assumes "\<forall>date \<in> set dts. dt_less date ms \<or> dt_ge date me"
  shows "check_month g ms me dts = Inl (AllOutsideMonth ms me)"
  using assms by (simp add: check_month_def list_all_iff outside_month_def)

lemma check_month_low:
  assumes "\<exists>date \<in> set dts. in_month ms me date"
    and "py_truediv (int (length (right_month_dts ms me dts))) (int (length dts)) < float_0_95"
  shows "check_month g ms me dts = Inl (MajorityNotInMonth g)"
  using assms by (auto simp: check_month_def list_all_iff in_month_iff_not_outside)

lemma check_month_pass:
  assumes "dts \<noteq> []"
    and "19 * length dts \<le> 20 * length (right_month_dts ms me dts)"
  shows "check_month g ms me dts = Inr ()"
    and "\<not> py_truediv (int (length (right_month_dts ms me dts))) (int (length dts)) < float_0_95"
proof -
  let ?k = "length (right_month_dts ms me dts)" and ?n = "length dts"
  from assms have n: "0 < ?n" by simp
  with assms(2) have k: "0 < ?k" by linarith
  then have notall: "\<not> list_all (outside_month ms me) dts"
    using right_month_empty_iff [of ms me dts] by simp
  show ge: "\<not> py_truediv (int ?k) (int ?n) < float_0_95"
    using n right_month_le assms(2) by (rule coverage_exact_ge)
  show "check_month g ms me dts = Inr ()"
    using notall ge by (simp add: check_month_def)
qed

text \<open>
  The bound on the length matters only beyond what a machine can hold: with
  \<open>2^54\<close> dates of which 17113678584007884 are in the window, the exact fraction is
  below 95 percent and the float quotient is the float 0.95 itself.
\<close>

lemma coverage_rounding_limit:
  "20 * 17113678584007884 < (19 :: int) * 18014398509481984
   \<and> \<not> py_truediv 17113678584007884 18014398509481984 < float_0_95"
  by code_simp

text \<open>
  C1. For a list of identifiers that is not empty and whose dates all parse, with the
  month window (month_start, month_end) computed, \<open>create_export\<close> makes two
  checks in this order. If every date is before month_start or not before month_end, it
  fails with the error that all files are outside the month. Otherwise, if the quotient
  of the number of dates in the window by the number of dates, as Python computes it, is
  below the float 0.95, it fails with the error that the majority is not in the month;
  for a list shorter than \<open>2^48\<close> this is the case whenever the exact fraction is
  below 95 percent. If the exact fraction is at least 95 percent (19 of 20, say), the
  quotient is not below 0.95 and both checks pass: the result is that of the rest of the
  construction, which succeeds when the cell has a projection.
\<close>

theorem create_export_month_checks:
  assumes ids: "table_asset_ids \<noteq> []"
    and parse: "parse_all (strptime w) table_asset_ids = Inr table_asset_dts"
    and window: "month_window grill_month = Inr (month_start, month_end)"
  shows
    "((\<forall>date \<in> set table_asset_dts. dt_less date month_start \<or> dt_ge date month_end) \<longrightarrow>
        create_export w table_asset_ids raster_asset_id grid_cell_feature grill_month
          overwrite_flag = Inl (AllOutsideMonth month_start month_end))
     \<and> ((\<exists>date \<in> set table_asset_dts. dt_ge date month_start \<and> dt_less date month_end)
          \<and> py_truediv (int (length (right_month_dts month_start month_end table_asset_dts)))
                (int (length table_asset_dts)) < float_0_95 \<longrightarrow>
        create_export w table_asset_ids raster_asset_id grid_cell_feature grill_month
          overwrite_flag = Inl (MajorityNotInMonth grill_month))
     \<and> ((\<exists>date \<in> set table_asset_dts. dt_ge date month_start \<and> dt_less date month_end)
          \<and> 20 * length (right_month_dts month_start month_end table_asset_dts)
                < 19 * length table_asset_dts
          \<and> length table_asset_ids < 2 ^ 48 \<longrightarrow>
        create_export w table_asset_ids raster_asset_id grid_cell_feature grill_month
          overwrite_flag = Inl (MajorityNotInMonth grill_month))
     \<and> (19 * length table_asset_dts
            \<le> 20 * length (right_month_dts month_start month_end table_asset_dts) \<longrightarrow>
        \<not> py_truediv (int (length (right_month_dts month_start month_end table_asset_dts)))
                (int (length table_asset_dts)) < float_0_95
        \<and> create_export w table_asset_ids raster_asset_id grid_cell_feature grill_month
            overwrite_flag =
          build_export w table_asset_ids raster_asset_id grid_cell_feature grill_month
            month_start month_end overwrite_flag
        \<and> (\<forall>c. cell_crs grid_cell_feature = Some c \<longrightarrow>
             (\<exists>export_params.
                create_export w table_asset_ids raster_asset_id grid_cell_feature
                  grill_month overwrite_flag = Inr export_params)))"
proof -
  let ?k = "length (right_month_dts month_start month_end table_asset_dts)"
  let ?n = "length table_asset_dts"
  let ?ce = "create_export w table_asset_ids raster_asset_id grid_cell_feature grill_month
          overwrite_flag"
  have len: "?n = length table_asset_ids" using parse by (rule parse_all_length)
  with ids have ne: "table_asset_dts \<noteq> []" by auto
  have ce: "?ce = (case check_month grill_month month_start month_end table_asset_dts of
        Inl e \<Rightarrow> Inl e
      | Inr _ \<Rightarrow> build_export w table_asset_ids raster_asset_id grid_cell_feature
          grill_month month_start month_end overwrite_flag)"
    using ids parse window by (rule create_export_checked)
  have 1: "(\<forall>date \<in> set table_asset_dts. dt_less date month_start \<or> dt_ge date month_end) \<longrightarrow>
        ?ce = Inl (AllOutsideMonth month_start month_end)"
    by (simp add: ce check_month_all_outside)
  have 2: "(\<exists>date \<in> set table_asset_dts. dt_ge date month_start \<and> dt_less date month_end)
          \<and> py_truediv (int ?k) (int ?n) < float_0_95 \<longrightarrow>
        ?ce = Inl (MajorityNotInMonth grill_month)"
  proof
    assume a: "(\<exists>date \<in> set table_asset_dts. dt_ge date month_start \<and> dt_less date month_end)
          \<and> py_truediv (int ?k) (int ?n) < float_0_95"
    then have "\<exists>date \<in> set table_asset_dts. in_month month_start month_end date"
      by (simp add: in_month_def)
    with a have "check_month grill_month month_start month_end table_asset_dts
        = Inl (MajorityNotInMonth grill_month)" by (simp add: check_month_low)
    then show "?ce = Inl (MajorityNotInMonth grill_month)" by (simp add: ce)
  qed
  have 3: "(\<exists>date \<in> set table_asset_dts. dt_ge date month_start \<and> dt_less date month_end)
          \<and> 20 * ?k < 19 * ?n \<and> length table_asset_ids < 2 ^ 48 \<longrightarrow>
        ?ce = Inl (MajorityNotInMonth grill_month)"
  proof
    assume a: "(\<exists>date \<in> set table_asset_dts. dt_ge date month_start \<and> dt_less date month_end)
          \<and> 20 * ?k < 19 * ?n \<and> length table_asset_ids < 2 ^ 48"
    have "0 < ?n" using ne by simp
    moreover have "?k \<le> ?n" by (rule right_month_le)
    moreover have "20 * ?k < 19 * ?n" using a by simp
    moreover have "?n < 2 ^ 48" using a len by simp
    ultimately have "py_truediv (int ?k) (int ?n) < float_0_95" by (rule coverage_exact_less)
    with a 2 show "?ce = Inl (MajorityNotInMonth grill_month)" by blast
  qed
  have 4: "19 * ?n \<le> 20 * ?k \<longrightarrow>
        \<not> py_truediv (int ?k) (int ?n) < float_0_95
        \<and> ?ce = build_export w table_asset_ids raster_asset_id grid_cell_feature grill_month
            month_start month_end overwrite_flag
        \<and> (\<forall>c. cell_crs grid_cell_feature = Some c \<longrightarrow> (\<exists>export_params. ?ce = Inr export_params))"
  proof
    assume a: "19 * ?n \<le> 20 * ?k"
    note p = check_month_pass [OF ne a]
    have eq: "?ce = build_export w table_asset_ids raster_asset_id grid_cell_feature grill_month
            month_start month_end overwrite_flag"
      using p(1) by (simp add: ce)
    have "\<forall>c. cell_crs grid_cell_feature = Some c \<longrightarrow> (\<exists>export_params. ?ce = Inr export_params)"
      unfolding eq using build_export_value by blast
    with p(2) eq show "\<not> py_truediv (int ?k) (int ?n) < float_0_95
        \<and> ?ce = build_export w table_asset_ids raster_asset_id grid_cell_feature grill_month
            month_start month_end overwrite_flag
        \<and> (\<forall>c. cell_crs grid_cell_feature = Some c \<longrightarrow> (\<exists>export_params. ?ce = Inr export_params))"
      by blast
  qed
  from 1 2 3 4 show ?thesis by blast
qed

lemma parse_all_append:
  "parse_all sp xs = Inr ds \<Longrightarrow> parse_all sp ys = Inr es \<Longrightarrow>
     parse_all sp (xs @ ys) = Inr (ds @ es)"
  by (induction xs arbitrary: ds) (auto split: sum.splits)

lemma parse_all_replicate:
  "parse_date_from_gedi_filename sp x = Inr d \<Longrightarrow>
     parse_all sp (replicate n x) = Inr (replicate n d)"
  by (induction n) auto

lemma example_parse:
  "parse_all (strptime example_world) (replicate m march_id @ replicate n april_id)
     = Inr (replicate m (datetime_ymd 2020 3 1) @ replicate n (datetime_ymd 2020 4 1))"
proof -
  have s: "strptime example_world = example_strptime" by (simp add: example_world_def)
  show ?thesis unfolding s
    by (intro parse_all_append parse_all_replicate parse_march parse_april)
qed

lemma march_in_march: "in_month (datetime_ymd 2020 3 1) (datetime_ymd 2020 4 1) (datetime_ymd 2020 3 1)"
  by code_simp

lemma april_not_in_march: "\<not> in_month (datetime_ymd 2020 3 1) (datetime_ymd 2020 4 1) (datetime_ymd 2020 4 1)"
  by code_simp

lemma filter_replicate_true: "P x \<Longrightarrow> filter P (replicate n x) = replicate n x"
  by (induction n) auto

lemma filter_replicate_false: "\<not> P x \<Longrightarrow> filter P (replicate n x) = []"
  by (induction n) auto

lemma example_right_month:
  "right_month_dts (datetime_ymd 2020 3 1) (datetime_ymd 2020 4 1)
     (replicate m (datetime_ymd 2020 3 1) @ replicate n (datetime_ymd 2020 4 1))
   = replicate m (datetime_ymd 2020 3 1)"
  unfolding right_month_dts_def filter_append
  by (simp only: filter_replicate_true
        [of "in_month (datetime_ymd 2020 3 1) (datetime_ymd 2020 4 1)", OF march_in_march]
      filter_replicate_false
        [of "in_month (datetime_ymd 2020 3 1) (datetime_ymd 2020 4 1)", OF april_not_in_march]
      append_Nil2)

lemma window_may: "month_window (datetime_ymd 2020 5 1) = Inr (datetime_ymd 2020 5 1, datetime_ymd 2020 6 1)"
  by code_simp

lemma march_before_may: "dt_less (datetime_ymd 2020 3 1) (datetime_ymd 2020 5 1)"
  by code_simp

lemma april_before_may: "dt_less (datetime_ymd 2020 4 1) (datetime_ymd 2020 5 1)"
  by code_simp

theorem create_export_month_checks_witness:
  "replicate 19 march_id @ replicate 1 april_id \<noteq> []
   \<and> parse_all (strptime example_world) (replicate 19 march_id @ replicate 1 april_id)
       = Inr (replicate 19 (datetime_ymd 2020 3 1) @ replicate 1 (datetime_ymd 2020 4 1))
   \<and> month_window (datetime_ymd 2020 3 1) = Inr (datetime_ymd 2020 3 1, datetime_ymd 2020 4 1)
   \<and> (\<exists>export_params.
        create_export example_world (replicate 19 march_id @ replicate 1 april_id)
          ''LARSE/GEDI/GEDI02_B_002_MONTHLY/001'' example_cell (datetime_ymd 2020 3 1) False
        = Inr export_params)
   \<and> create_export example_world (replicate 94 march_id @ replicate 6 april_id)
        ''LARSE/GEDI/GEDI02_B_002_MONTHLY/001'' example_cell (datetime_ymd 2020 3 1) False
      = Inl (MajorityNotInMonth (datetime_ymd 2020 3 1))
   \<and> create_export example_world (replicate 19 march_id @ replicate 1 april_id)
        ''LARSE/GEDI/GEDI02_B_002_MONTHLY/001'' example_cell (datetime_ymd 2020 5 1) False
      = Inl (AllOutsideMonth (datetime_ymd 2020 5 1) (datetime_ymd 2020 6 1))"
proof -
  let ?ids = "replicate 19 march_id @ replicate 1 april_id"
  let ?dts = "replicate 19 (datetime_ymd 2020 3 1) @ replicate 1 (datetime_ymd 2020 4 1)"
  let ?ids94 = "replicate 94 march_id @ replicate 6 april_id"
  let ?dts94 = "replicate 94 (datetime_ymd 2020 3 1) @ replicate 6 (datetime_ymd 2020 4 1)"
  let ?r = "''LARSE/GEDI/GEDI02_B_002_MONTHLY/001''"
  have ne: "?ids \<noteq> []" by simp
  have ne94: "?ids94 \<noteq> []" by simp
  have p: "parse_all (strptime example_world) ?ids = Inr ?dts" by (rule example_parse)
  have p94: "parse_all (strptime example_world) ?ids94 = Inr ?dts94" by (rule example_parse)
  note w3 = window_march and w5 = window_may
  have crs: "cell_crs example_cell = Some ''EPSG:32610''" by (simp add: example_cell_def)
  have pass: "19 * length ?dts
      \<le> 20 * length (right_month_dts (datetime_ymd 2020 3 1) (datetime_ymd 2020 4 1) ?dts)"
    unfolding example_right_month by simp
  have in94: "\<exists>date \<in> set ?dts94.
      dt_ge date (datetime_ymd 2020 3 1) \<and> dt_less date (datetime_ymd 2020 4 1)"
    using march_in_march by (auto simp: in_month_def)
  have low: "20 * length (right_month_dts (datetime_ymd 2020 3 1) (datetime_ymd 2020 4 1) ?dts94)
          < 19 * length ?dts94"
    unfolding example_right_month by simp
  have small: "length ?ids94 < 2 ^ 48" by simp
  have out: "\<forall>date \<in> set ?dts.
      dt_less date (datetime_ymd 2020 5 1) \<or> dt_ge date (datetime_ymd 2020 6 1)"
    using march_before_may april_before_may by auto
  from create_export_month_checks [OF ne p w3, of ?r example_cell False] pass crs
  have 1: "\<exists>export_params. create_export example_world ?ids ?r example_cell
      (datetime_ymd 2020 3 1) False = Inr export_params" by blast
  from create_export_month_checks [OF ne94 p94 w3, of ?r example_cell False] in94 low small
  have 2: "create_export example_world ?ids94 ?r example_cell (datetime_ymd 2020 3 1) False
      = Inl (MajorityNotInMonth (datetime_ymd 2020 3 1))" by blast
  from create_export_month_checks [OF ne p w5, of ?r example_cell False] out
  have 3: "create_export example_world ?ids ?r example_cell (datetime_ymd 2020 5 1) False
      = Inl (AllOutsideMonth (datetime_ymd 2020 5 1) (datetime_ymd 2020 6 1))" by blast
  from ne p w3 1 2 3 show ?thesis by blast
qed

section \<open>The exported image: proofs\<close>

lemma create_export_InrD:
  assumes "create_export w ids r cell g ov = Inr ep"
  shows "\<exists>dts ms me c. ids \<noteq> [] \<and> parse_all (strptime w) ids = Inr dts
           \<and> month_window g = Inr (ms, me)
           \<and> check_month g ms me dts = Inr ()
           \<and> cell_crs cell = Some c
           \<and> build_export w ids r cell g ms me ov = Inr ep"
proof -
  from assms have ne: "ids \<noteq> []" by (auto simp: create_export_def split: if_splits)
  from assms ne obtain dts where p: "parse_all (strptime w) ids = Inr dts"
    by (auto simp: create_export_def split: sum.splits)
  from assms ne p obtain ms me where w: "month_window g = Inr (ms, me)"
    by (auto simp: create_export_def split: sum.splits)
  from assms ne p w have c: "check_month g ms me dts = Inr ()"
    and b: "build_export w ids r cell g ms me ov = Inr ep"
    by (auto simp: create_export_def split: sum.splits)
  from b obtain c' where "cell_crs cell = Some c'"
    by (cases "cell_crs cell") (auto simp: build_export_no_crs)
  with ne p w c b show ?thesis by blast
qed

lemma create_export_image:
  assumes ce: "create_export w ids r cell g ov = Inr ep"
    and win: "month_window g = Inr (ms, me)"
  shows "bands (image_ee ep) =
           map (\<lambda>name. \<lparr>band_name = name,
                  band_type = (if name \<in> INTEGER_PROPS then Int32 else Double),
                  band_source = first_at w (crs ep) 25 (export_shots w ids cell ms me)\<rparr>)
               raster_bands"
    and "cell_crs cell = Some (crs ep)"
    and "clipped_to (image_ee ep) = Some (export_box w cell)"
    and "region ep = export_box w cell"
proof -
  from create_export_InrD [OF ce] win obtain c where c: "cell_crs cell = Some c"
    and b: "build_export w ids r cell g ms me ov = Inr ep" by auto
  note v = build_export_value [OF c, of w ids r g ms me ov]
  from b v have ep: "ep = \<lparr>asset_id = r,
          image_ee =
            \<lparr>bands = map (\<lambda>name. \<lparr>band_name = name,
                        band_type = (if name \<in> INTEGER_PROPS then Int32 else Double),
                        band_source = first_at w c 25 (export_shots w ids cell ms me)\<rparr>)
                      raster_bands,
             properties = Some \<lparr>prop_month = month g, prop_year = year g, prop_version = 1,
                     prop_time_start = timestamp_ms_for_datetime w ms,
                     prop_time_end = timestamp_ms_for_datetime w me,
                     prop_table_asset_ids = ids\<rparr>,
             clipped_to = Some (export_box w cell)\<rparr>,
          pyramiding_policy = [(''.default'', ''sample'')],
          crs = c,
          region = export_box w cell,
          overwrite = ov\<rparr>" by simp
  show "bands (image_ee ep) =
           map (\<lambda>name. \<lparr>band_name = name,
                  band_type = (if name \<in> INTEGER_PROPS then Int32 else Double),
                  band_source = first_at w (crs ep) 25 (export_shots w ids cell ms me)\<rparr>)
               raster_bands" by (simp add: ep)
  show "cell_crs cell = Some (crs ep)" by (simp add: ep c)
  show "clipped_to (image_ee ep) = Some (export_box w cell)" by (simp add: ep)
  show "region ep = export_box w cell" by (simp add: ep)
qed

lemma example_export_succeeds:
  "\<exists>export_params.
     create_export example_world [march_id] ''LARSE/GEDI/GEDI02_B_002_MONTHLY/001''
       example_cell (datetime_ymd 2020 3 1) False = Inr export_params"
proof -
  have s: "strptime example_world = example_strptime" by (simp add: example_world_def)
  have p: "parse_all (strptime example_world) [march_id] = Inr [datetime_ymd 2020 3 1]"
    unfolding s by (simp add: parse_march)
  have k: "right_month_dts (datetime_ymd 2020 3 1) (datetime_ymd 2020 4 1) [datetime_ymd 2020 3 1]
      = [datetime_ymd 2020 3 1]"
    using march_in_march by (simp add: right_month_dts_def)
  have c: "check_month (datetime_ymd 2020 3 1) (datetime_ymd 2020 3 1) (datetime_ymd 2020 4 1)
      [datetime_ymd 2020 3 1] = Inr ()"
  proof (rule check_month_pass(1))
    show "[datetime_ymd 2020 3 1] \<noteq> []" by simp
    show "19 * length [datetime_ymd 2020 3 1]
      \<le> 20 * length (right_month_dts (datetime_ymd 2020 3 1) (datetime_ymd 2020 4 1)
          [datetime_ymd 2020 3 1])" unfolding k by simp
  qed
  have crs: "cell_crs example_cell = Some ''EPSG:32610''" by (simp add: example_cell_def)
  have eq: "create_export example_world [march_id] ''LARSE/GEDI/GEDI02_B_002_MONTHLY/001''
       example_cell (datetime_ymd 2020 3 1) False
     = build_export example_world [march_id] ''LARSE/GEDI/GEDI02_B_002_MONTHLY/001''
       example_cell (datetime_ymd 2020 3 1) (datetime_ymd 2020 3 1) (datetime_ymd 2020 4 1) False"
    using create_export_checked [OF _ p window_march] c by simp
  show ?thesis unfolding eq build_export_value [OF crs] by blast
qed

lemma algorithmrun_flag_integer: "''algorithmrun_flag'' \<in> INTEGER_PROPS"
  by (simp add: INTEGER_PROPS_def)

lemma pai_not_integer: "''pai'' \<notin> INTEGER_PROPS"
  by (simp add: INTEGER_PROPS_def)

lemma shot_number_not_integer: "''shot_number'' \<notin> INTEGER_PROPS"
  by (simp add: INTEGER_PROPS_def)

lemma shot_number_not_band: "''shot_number'' \<notin> set raster_bands"
  unfolding raster_bands_explicit by simp

lemma pai_band: "''pai'' \<in> set raster_bands"
  unfolding raster_bands_eq by simp

lemma algorithmrun_flag_band: "''algorithmrun_flag'' \<in> set raster_bands"
  unfolding raster_bands_eq by simp

text \<open>
  C6. In the image of every successful export the bands are named as the band list and
  each band has one of two pixel types: the integer type exactly when its name is in
  \<open>INTEGER_PROPS\<close>, the double type exactly when it is not. The bands cast to
  integer are those of the band list that are in \<open>INTEGER_PROPS\<close>;
  algorithmrun_flag is one of them, pai is a band that is not, and shot_number is no
  band at all.
\<close>

theorem band_kind_by_INTEGER_PROPS:
  assumes "create_export w table_asset_ids raster_asset_id grid_cell_feature grill_month
             overwrite_flag = Inr export_params"
  shows "map band_name (bands (image_ee export_params)) = raster_bands
     \<and> (\<forall>b \<in> set (bands (image_ee export_params)).
           (band_type b = Int32 \<longleftrightarrow> band_name b \<in> INTEGER_PROPS)
         \<and> (band_type b = Double \<longleftrightarrow> band_name b \<notin> INTEGER_PROPS))
     \<and> (\<forall>name. name \<in> set int_bands \<longleftrightarrow> name \<in> set raster_bands \<and> name \<in> INTEGER_PROPS)
     \<and> ''algorithmrun_flag'' \<in> INTEGER_PROPS
     \<and> ''algorithmrun_flag'' \<in> set int_bands
     \<and> ''pai'' \<in> set raster_bands
     \<and> ''pai'' \<notin> INTEGER_PROPS
     \<and> ''pai'' \<notin> set int_bands
     \<and> ''shot_number'' \<notin> set raster_bands
     \<and> ''shot_number'' \<notin> INTEGER_PROPS
     \<and> ''shot_number'' \<notin> band_name ` set (bands (image_ee export_params))"
proof -
  from create_export_InrD [OF assms] obtain ms me where win: "month_window grill_month = Inr (ms, me)"
    by blast
  note img = create_export_image(1) [OF assms win]
  have names: "map band_name (bands (image_ee export_params)) = raster_bands"
    unfolding img by (simp add: comp_def)
  have kinds: "\<forall>b \<in> set (bands (image_ee export_params)).
           (band_type b = Int32 \<longleftrightarrow> band_name b \<in> INTEGER_PROPS)
         \<and> (band_type b = Double \<longleftrightarrow> band_name b \<notin> INTEGER_PROPS)"
    unfolding img by auto
  have sn: "''shot_number'' \<notin> band_name ` set (bands (image_ee export_params))"
    using names shot_number_not_band by (metis set_map)
  have ib: "\<forall>name. name \<in> set int_bands \<longleftrightarrow> name \<in> set raster_bands \<and> name \<in> INTEGER_PROPS"
    by (simp add: int_bands_iff)
  have a: "''algorithmrun_flag'' \<in> set int_bands"
    using algorithmrun_flag_integer algorithmrun_flag_band by (simp add: int_bands_iff)
  have p: "''pai'' \<notin> set int_bands" using pai_not_integer by (simp add: int_bands_iff)
  from names kinds ib algorithmrun_flag_integer a pai_band pai_not_integer p
    shot_number_not_band shot_number_not_integer sn
  show ?thesis by blast
qed

theorem band_kind_by_INTEGER_PROPS_witness:
  "\<exists>export_params.
     create_export example_world [march_id] ''LARSE/GEDI/GEDI02_B_002_MONTHLY/001''
       example_cell (datetime_ymd 2020 3 1) False = Inr export_params
     \<and> map band_name (bands (image_ee export_params)) = raster_bands
     \<and> ''shot_number'' \<notin> band_name ` set (bands (image_ee export_params))"
proof -
  from example_export_succeeds obtain ep where
    ep: "create_export example_world [march_id] ''LARSE/GEDI/GEDI02_B_002_MONTHLY/001''
       example_cell (datetime_ymd 2020 3 1) False = Inr ep" by blast
  from band_kind_by_INTEGER_PROPS [OF ep] ep show ?thesis by blast
qed

text \<open>
  C7. On an image whose bands are named as the band list, the cast step (every band
  cast to double, then the integer bands, selected by name and cast to integer, added
  with overwrite) succeeds and returns an image with the same 109 band names in the same
  order. Each band is the band of the input at the same position with a new pixel type;
  a band whose name is not in \<open>INTEGER_PROPS\<close> is exactly the band of the double
  cast, a band whose name is in it differs from the band of the double cast in its
  pixel type only, which is the integer type. Properties and clip geometry are kept.
\<close>

theorem cast_types_keeps_bands_in_place:
  assumes names: "map band_name (bands img) = raster_bands"
  shows "\<exists>out. cast_types img = Inr out
     \<and> map band_name (bands out) = raster_bands
     \<and> length (bands out) = length (bands img)
     \<and> length (bands out) = 109
     \<and> (\<forall>i < length (bands img).
           bands out ! i = (bands img ! i)\<lparr>band_type :=
              (if raster_bands ! i \<in> INTEGER_PROPS then Int32 else Double)\<rparr>)
     \<and> (\<forall>i < length (bands img).
           raster_bands ! i \<notin> INTEGER_PROPS \<longrightarrow> bands out ! i = bands (toDouble img) ! i)
     \<and> (\<forall>i < length (bands img).
           raster_bands ! i \<in> INTEGER_PROPS \<longrightarrow>
             bands out ! i = (bands (toDouble img) ! i)\<lparr>band_type := Int32\<rparr>
             \<and> bands out ! i \<noteq> bands (toDouble img) ! i)
     \<and> properties out = properties img
     \<and> clipped_to out = clipped_to img"
proof -
  let ?out = "img\<lparr>bands := map (\<lambda>b. b\<lparr>band_type :=
                 (if band_name b \<in> INTEGER_PROPS then Int32 else Double)\<rparr>) (bands img)\<rparr>"
  have c: "cast_types img = Inr ?out" using names by (rule cast_types_raster)
  have len: "length (bands img) = 109"
    using names raster_bands_length by (metis length_map)
  have nm: "\<And>i. i < length (bands img) \<Longrightarrow> band_name (bands img ! i) = raster_bands ! i"
    using names by (metis nth_map)
  have 1: "map band_name (bands ?out) = raster_bands" using names by (simp add: comp_def)
  have 2: "\<forall>i < length (bands img).
           bands ?out ! i = (bands img ! i)\<lparr>band_type :=
              (if raster_bands ! i \<in> INTEGER_PROPS then Int32 else Double)\<rparr>"
    using nm by simp
  have 3: "\<forall>i < length (bands img).
           raster_bands ! i \<notin> INTEGER_PROPS \<longrightarrow> bands ?out ! i = bands (toDouble img) ! i"
    using nm by (simp add: toDouble_def)
  have 4: "\<forall>i < length (bands img).
           raster_bands ! i \<in> INTEGER_PROPS \<longrightarrow>
             bands ?out ! i = (bands (toDouble img) ! i)\<lparr>band_type := Int32\<rparr>
             \<and> bands ?out ! i \<noteq> bands (toDouble img) ! i"
  proof (intro allI impI)
    fix i assume i: "i < length (bands img)" and int: "raster_bands ! i \<in> INTEGER_PROPS"
    have a: "bands ?out ! i = (bands img ! i)\<lparr>band_type := Int32\<rparr>" using nm i int by simp
    have b: "bands (toDouble img) ! i = (bands img ! i)\<lparr>band_type := Double\<rparr>"
      using i by (simp add: toDouble_def)
    have "band_type (bands ?out ! i) \<noteq> band_type (bands (toDouble img) ! i)"
      unfolding a b by simp
    then have "bands ?out ! i \<noteq> bands (toDouble img) ! i" by auto
    with a b show "bands ?out ! i = (bands (toDouble img) ! i)\<lparr>band_type := Int32\<rparr>
             \<and> bands ?out ! i \<noteq> bands (toDouble img) ! i" by simp
  qed
  have 5: "length (bands ?out) = length (bands img)" by simp
  have 6: "length (bands ?out) = 109" using len by simp
  have 7: "properties ?out = properties img" "clipped_to ?out = clipped_to img" by simp_all
  from c 1 2 3 4 5 6 7 show ?thesis by blast
qed

theorem cast_types_keeps_bands_in_place_witness:
  "map band_name (bands (reduceToImage_first example_world raster_bands ''EPSG:32610'' 25 []))
     = raster_bands
   \<and> (\<exists>out. cast_types (reduceToImage_first example_world raster_bands ''EPSG:32610'' 25 [])
               = Inr out
         \<and> map band_name (bands out) = raster_bands
         \<and> length (bands out) = 109)"
proof -
  have n: "map band_name (bands (reduceToImage_first example_world raster_bands ''EPSG:32610'' 25 []))
     = raster_bands" by (simp add: reduceToImage_first_def comp_def)
  from cast_types_keeps_bands_in_place [OF n] n show ?thesis by blast
qed

section \<open>Filtering, ordering and reduction: proofs\<close>

lemma export_shots_sorted:
  "sorted (map (\<lambda>s. - shot_props s ''sensitivity'') (export_shots w ids cell ms me))"
  unfolding export_shots_def sort_descending_def by (rule sorted_sort_key)

lemma export_shots_set:
  "set (export_shots w ids cell ms me) = set (filter_shots w ids (export_box w cell) ms me)"
  by (simp add: export_shots_def sort_descending_def)

lemma export_shots_length:
  "length (export_shots w ids cell ms me) = length (filter_shots w ids (export_box w cell) ms me)"
  by (simp add: export_shots_def sort_descending_def)

lemma filter_shots_set:
  "set (filter_shots w ids box ms me) =
     {s \<in> set (flatten w ids). intersects w (shot_geometry s) box
        \<and> gedi_deltatime_epoch ms \<le> shot_props s ''delta_time''
        \<and> shot_props s ''delta_time'' \<le> gedi_deltatime_epoch me}"
  by (auto simp: filter_shots_def filterBounds_def rangeContains_def)

lemma first_at_highest:
  assumes s: "s \<in> set (filter_shots w ids (export_box w cell) ms me)"
  shows "\<exists>s'. first_at w c 25 (export_shots w ids cell ms me) (pixel_at w c 25 (shot_geometry s))
            = Some s'
          \<and> s' \<in> set (filter_shots w ids (export_box w cell) ms me)
          \<and> pixel_at w c 25 (shot_geometry s') = pixel_at w c 25 (shot_geometry s)
          \<and> shot_props s ''sensitivity'' \<le> shot_props s' ''sensitivity''"
proof -
  let ?xs = "export_shots w ids cell ms me"
  let ?P = "\<lambda>x. pixel_at w c 25 (shot_geometry x) = pixel_at w c 25 (shot_geometry s)"
  from s have sx: "s \<in> set ?xs" by (simp add: export_shots_set)
  from find_exists [of s ?xs ?P] sx obtain s' where
    f: "find ?P ?xs = Some s'" and m: "s' \<in> set ?xs" and p: "?P s'" by auto
  have "- shot_props s' ''sensitivity'' \<le> - shot_props s ''sensitivity''"
    using export_shots_sorted f sx by (rule find_first_is_least) simp
  then have "shot_props s ''sensitivity'' \<le> shot_props s' ''sensitivity''" by simp
  with f m p show ?thesis by (auto simp: first_at_def export_shots_set)
qed

lemma first_at_none:
  assumes "\<forall>s \<in> set (filter_shots w ids (export_box w cell) ms me).
             pixel_at w c 25 (shot_geometry s) \<noteq> p"
  shows "first_at w c 25 (export_shots w ids cell ms me) p = None"
  using assms by (auto simp: first_at_def find_None_iff export_shots_set)

text \<open>
  C4. In every successful export, the collection that is reduced is the filtered
  collection sorted by descending sensitivity, and every band takes, at every pixel,
  the first record of this collection that falls in the pixel. So for every surviving
  record the pixel it falls in carries, in every band, a surviving record of that pixel
  whose sensitivity is at least as high; of two surviving records of one pixel with
  different sensitivities (0.9 and 0.7, say) the lower one never gives the pixel its
  values. The model is a function of the input collection, so equal inputs in equal
  order give equal outputs.
\<close>

theorem first_reducer_takes_highest_sensitivity:
  assumes ce: "create_export w table_asset_ids raster_asset_id grid_cell_feature grill_month
             overwrite_flag = Inr export_params"
    and win: "month_window grill_month = Inr (month_start, month_end)"
  shows
    "sorted (map (\<lambda>s. - shot_props s ''sensitivity'')
        (export_shots w table_asset_ids grid_cell_feature month_start month_end))
     \<and> set (export_shots w table_asset_ids grid_cell_feature month_start month_end)
         = set (filter_shots w table_asset_ids (export_box w grid_cell_feature)
                  month_start month_end)
     \<and> (\<forall>b \<in> set (bands (image_ee export_params)).
           band_source b = first_at w (crs export_params) 25
             (export_shots w table_asset_ids grid_cell_feature month_start month_end))
     \<and> (\<forall>b \<in> set (bands (image_ee export_params)).
         \<forall>s \<in> set (filter_shots w table_asset_ids (export_box w grid_cell_feature)
                  month_start month_end).
           \<exists>s'. band_source b (pixel_at w (crs export_params) 25 (shot_geometry s)) = Some s'
              \<and> s' \<in> set (filter_shots w table_asset_ids (export_box w grid_cell_feature)
                  month_start month_end)
              \<and> pixel_at w (crs export_params) 25 (shot_geometry s')
                  = pixel_at w (crs export_params) 25 (shot_geometry s)
              \<and> shot_props s ''sensitivity'' \<le> shot_props s' ''sensitivity'')
     \<and> (\<forall>b \<in> set (bands (image_ee export_params)).
         \<forall>s1 \<in> set (filter_shots w table_asset_ids (export_box w grid_cell_feature)
                  month_start month_end).
         \<forall>s2 \<in> set (filter_shots w table_asset_ids (export_box w grid_cell_feature)
                  month_start month_end).
           pixel_at w (crs export_params) 25 (shot_geometry s1)
             = pixel_at w (crs export_params) 25 (shot_geometry s2)
           \<and> shot_props s2 ''sensitivity'' < shot_props s1 ''sensitivity'' \<longrightarrow>
           band_source b (pixel_at w (crs export_params) 25 (shot_geometry s2)) \<noteq> Some s2)"
proof -
  let ?surv = "filter_shots w table_asset_ids (export_box w grid_cell_feature)
                  month_start month_end"
  let ?xs = "export_shots w table_asset_ids grid_cell_feature month_start month_end"
  let ?c = "crs export_params"
  let ?px = "\<lambda>s. pixel_at w ?c 25 (shot_geometry s)"
  note img = create_export_image(1) [OF ce win]
  have src: "\<forall>b \<in> set (bands (image_ee export_params)). band_source b = first_at w ?c 25 ?xs"
    unfolding img by auto
  have hi: "\<forall>b \<in> set (bands (image_ee export_params)). \<forall>s \<in> set ?surv.
           \<exists>s'. band_source b (?px s) = Some s' \<and> s' \<in> set ?surv \<and> ?px s' = ?px s
              \<and> shot_props s ''sensitivity'' \<le> shot_props s' ''sensitivity''"
  proof (intro ballI)
    fix b s assume b: "b \<in> set (bands (image_ee export_params))" and s: "s \<in> set ?surv"
    from src b have "band_source b = first_at w ?c 25 ?xs" by blast
    then show "\<exists>s'. band_source b (?px s) = Some s' \<and> s' \<in> set ?surv \<and> ?px s' = ?px s
              \<and> shot_props s ''sensitivity'' \<le> shot_props s' ''sensitivity''"
      using first_at_highest [OF s, of ?c] by simp
  qed
  have lo: "\<forall>b \<in> set (bands (image_ee export_params)). \<forall>s1 \<in> set ?surv. \<forall>s2 \<in> set ?surv.
           ?px s1 = ?px s2 \<and> shot_props s2 ''sensitivity'' < shot_props s1 ''sensitivity'' \<longrightarrow>
           band_source b (?px s2) \<noteq> Some s2"
  proof (intro ballI impI)
    fix b s1 s2
    assume b: "b \<in> set (bands (image_ee export_params))"
      and s1: "s1 \<in> set ?surv" and s2: "s2 \<in> set ?surv"
      and a: "?px s1 = ?px s2 \<and> shot_props s2 ''sensitivity'' < shot_props s1 ''sensitivity''"
    from hi b s1 obtain s' where s': "band_source b (?px s1) = Some s'"
      "shot_props s1 ''sensitivity'' \<le> shot_props s' ''sensitivity''" by blast
    with a have "shot_props s2 ''sensitivity'' < shot_props s' ''sensitivity''" by simp
    then have "s' \<noteq> s2" by auto
    with s' a show "band_source b (?px s2) \<noteq> Some s2" by simp
  qed
  from export_shots_sorted [of w table_asset_ids grid_cell_feature month_start month_end]
    export_shots_set [of w table_asset_ids grid_cell_feature month_start month_end] src hi lo
  show ?thesis by blast
qed

lemma example_box: "export_box example_world example_cell = Rectangle (- 2500) (- 2500) 3500 3500"
  by (simp add: export_box_def example_world_def example_cell_def example_buffer_def
      example_bounds_def)

lemma example_flatten:
  "flatten example_world [march_id] =
     [example_shot 10 10 68256000 (7 / 10),
      example_shot 12 12 68256000 (9 / 10),
      example_shot 100 100 70934400 (1 / 2),
      example_shot 90000 90000 68256000 (99 / 100)]"
  by (simp add: flatten_def example_world_def example_tables_def)

lemma example_filter_shots:
  "filter_shots example_world [march_id] (export_box example_world example_cell)
     (datetime_ymd 2020 3 1) (datetime_ymd 2020 4 1) =
     [example_shot 10 10 68256000 (7 / 10),
      example_shot 12 12 68256000 (9 / 10),
      example_shot 100 100 70934400 (1 / 2)]"
  unfolding filter_shots_def epoch_march epoch_april example_box example_flatten
  by (simp add: filterBounds_def rangeContains_def example_world_def example_intersects_def
      example_shot_def)

text \<open>
  C3, at a record on the upper boundary. The record filter keeps the records that are in
  the box and whose delta_time is in the range of \<open>rangeContains\<close>, which includes
  both ends. For March 2020 a record inside the box whose delta_time equals the epoch of
  the window end, 70934400, is kept; the month check of the identifiers counts the
  window end itself as outside. The record outside the box is dropped although its
  delta_time is inside the range.
\<close>

theorem filter_shots_keeps_shot_at_month_end:
  "month_window (datetime_ymd 2020 3 1) = Inr (datetime_ymd 2020 3 1, datetime_ymd 2020 4 1)
   \<and> shot_props (example_shot 100 100 70934400 (1 / 2)) ''delta_time''
       = gedi_deltatime_epoch (datetime_ymd 2020 4 1)
   \<and> intersects example_world (shot_geometry (example_shot 100 100 70934400 (1 / 2)))
       (export_box example_world example_cell)
   \<and> filter_shots example_world [march_id] (export_box example_world example_cell)
       (datetime_ymd 2020 3 1) (datetime_ymd 2020 4 1) =
       [example_shot 10 10 68256000 (7 / 10),
        example_shot 12 12 68256000 (9 / 10),
        example_shot 100 100 70934400 (1 / 2)]"
proof -
  have 1: "shot_props (example_shot 100 100 70934400 (1 / 2)) ''delta_time''
       = gedi_deltatime_epoch (datetime_ymd 2020 4 1)"
    unfolding epoch_april by (simp add: example_shot_def)
  have 2: "intersects example_world (shot_geometry (example_shot 100 100 70934400 (1 / 2)))
       (export_box example_world example_cell)"
    unfolding example_box by (simp add: example_world_def example_intersects_def example_shot_def)
  from window_march 1 2 example_filter_shots show ?thesis by blast
qed

theorem first_reducer_takes_highest_sensitivity_witness:
  "\<exists>export_params.
     create_export example_world [march_id] ''LARSE/GEDI/GEDI02_B_002_MONTHLY/001''
       example_cell (datetime_ymd 2020 3 1) False = Inr export_params
     \<and> month_window (datetime_ymd 2020 3 1) = Inr (datetime_ymd 2020 3 1, datetime_ymd 2020 4 1)
     \<and> list_all (\<lambda>b. band_source b (0, 0) = Some (example_shot 12 12 68256000 (9 / 10)))
         (bands (image_ee export_params))"
proof -
  let ?lo = "example_shot 10 10 68256000 (7 / 10)"
  let ?hi = "example_shot 12 12 68256000 (9 / 10)"
  let ?far = "example_shot 100 100 70934400 (1 / 2)"
  from example_export_succeeds obtain ep where
    ep: "create_export example_world [march_id] ''LARSE/GEDI/GEDI02_B_002_MONTHLY/001''
       example_cell (datetime_ymd 2020 3 1) False = Inr ep" by blast
  note T = first_reducer_takes_highest_sensitivity [OF ep window_march]
  have px: "\<And>c x y d q. pixel_at example_world c 25 (shot_geometry (example_shot x y d q))
      = (x div 25, y div 25)"
    by (simp add: example_world_def example_pixel_at_def example_shot_def)
  have sens: "\<And>x y d q. shot_props (example_shot x y d q) ''sensitivity'' = q"
    by (simp add: example_shot_def)
  have "\<forall>b \<in> set (bands (image_ee ep)). band_source b (0, 0) = Some ?hi"
  proof
    fix b assume b: "b \<in> set (bands (image_ee ep))"
    have "?hi \<in> set (filter_shots example_world [march_id]
        (export_box example_world example_cell) (datetime_ymd 2020 3 1) (datetime_ymd 2020 4 1))"
      unfolding example_filter_shots by simp
    with T b obtain s' where
      s': "band_source b (pixel_at example_world (crs ep) 25 (shot_geometry ?hi)) = Some s'"
        "s' \<in> set (filter_shots example_world [march_id]
          (export_box example_world example_cell) (datetime_ymd 2020 3 1) (datetime_ymd 2020 4 1))"
        "pixel_at example_world (crs ep) 25 (shot_geometry s')
           = pixel_at example_world (crs ep) 25 (shot_geometry ?hi)"
        "shot_props ?hi ''sensitivity'' \<le> shot_props s' ''sensitivity''"
      by blast
    from s'(2) have "s' = ?lo \<or> s' = ?hi \<or> s' = ?far" unfolding example_filter_shots by simp
    then have "s' = ?hi"
    proof (elim disjE)
      assume "s' = ?lo" with s'(4) show ?thesis by (simp add: sens)
    next
      assume "s' = ?hi" then show ?thesis .
    next
      assume "s' = ?far" with s'(3) show ?thesis by (simp add: px)
    qed
    with s'(1) show "band_source b (0, 0) = Some ?hi" by (simp add: px)
  qed
  then have "list_all (\<lambda>b. band_source b (0, 0) = Some ?hi) (bands (image_ee ep))"
    by (simp add: list_all_iff)
  with ep window_march show ?thesis by blast
qed

section \<open>Mission delta-time: proofs\<close>

lemma round_pos_int:
  assumes "0 < s" "s < 2 ^ 53"
  shows "round_pos s 1 = of_int s"
proof -
  have d: "scale_down s 1 = 0" using assms by (simp add: scale_down.simps [of s 1])
  define u where "u = scale_up s 1"
  show ?thesis
    unfolding round_pos_def Let_def d u_def [symmetric] by (simp add: round_half_even_one)
qed

lemma round64_of_int:
  assumes "\<bar>s\<bar> < 2 ^ 53"
  shows "round64 (of_int s) = of_int s"
proof -
  have "quotient_of (Fract s 1) = (s, 1)" by (simp add: quotient_of_Fract Rat.normalize_def)
  then have q: "quotient_of (of_int s) = (s, 1)" by (simp add: Fract_of_int_eq)
  consider "s = 0" | "0 < s" | "s < 0" by linarith
  then show ?thesis
  proof cases
    case 1
    then show ?thesis by (simp add: round64_def)
  next
    case 2
    with assms have "round_pos s 1 = of_int s" by (intro round_pos_int) simp_all
    with 2 show ?thesis by (simp add: round64_def q)
  next
    case 3
    with assms have "round_pos (- s) 1 = of_int (- s)" by (intro round_pos_int) simp_all
    with 3 show ?thesis by (simp add: round64_def q)
  qed
qed

lemma py_truediv_whole:
  assumes "\<bar>s\<bar> < 2 ^ 53"
  shows "py_truediv (s * 10 ^ 6) (10 ^ 6) = of_int s"
proof -
  have "(of_int (s * 10 ^ 6) :: rat) / of_int (10 ^ 6) = of_int s" by simp
  then show ?thesis using round64_of_int [OF assms] by (simp only: py_truediv_def)
qed

lemma days_before_year_bounds:
  assumes "1 \<le> y" "y \<le> 9999"
  shows "0 \<le> days_before_year y" "days_before_year y \<le> 3660000"
  using assms by (simp_all add: days_before_year_def Let_def)

lemma days_in_month_le:
  assumes "1 \<le> m" "m \<le> 12"
  shows "days_in_month y m \<le> 31"
proof -
  from assms have "m = 1 \<or> m = 2 \<or> m = 3 \<or> m = 4 \<or> m = 5 \<or> m = 6 \<or> m = 7 \<or> m = 8
      \<or> m = 9 \<or> m = 10 \<or> m = 11 \<or> m = 12" by arith
  then show ?thesis by (auto simp: days_in_month_def mdays_def)
qed

lemma sum_list_bounded:
  fixes f :: "'a \<Rightarrow> int"
  assumes "\<And>x. x \<in> set xs \<Longrightarrow> 0 \<le> f x \<and> f x \<le> c"
  shows "0 \<le> sum_list (map f xs) \<and> sum_list (map f xs) \<le> c * int (length xs)"
  using assms
proof (induction xs)
  case Nil
  then show ?case by simp
next
  case (Cons a xs)
  then have "0 \<le> f a \<and> f a \<le> c"
    and "0 \<le> sum_list (map f xs) \<and> sum_list (map f xs) \<le> c * int (length xs)" by auto
  then show ?case by (simp add: algebra_simps)
qed

lemma days_before_month_bounds:
  assumes "1 \<le> m" "m \<le> 12"
  shows "0 \<le> days_before_month y m" "days_before_month y m \<le> 341"
proof -
  have el: "\<And>i. i \<in> set [1..<m] \<Longrightarrow>
      0 \<le> int (days_in_month y i) \<and> int (days_in_month y i) \<le> 31"
    using assms days_in_month_le [of _ y] by force
  from sum_list_bounded [of "[1..<m]" "\<lambda>i. int (days_in_month y i)" 31, OF el]
  have "0 \<le> days_before_month y m \<and> days_before_month y m \<le> 31 * int (length [1..<m])"
    by (simp add: days_before_month_def)
  then show "0 \<le> days_before_month y m" "days_before_month y m \<le> 341"
    using assms by simp_all
qed

lemma toordinal_bounds:
  assumes "valid_datetime d"
  shows "0 \<le> toordinal d" "toordinal d \<le> 3670000"
proof -
  from assms have y: "1 \<le> year d" "year d \<le> 9999" and m: "1 \<le> month d" "month d \<le> 12"
    and dd: "day d \<le> days_in_month (year d) (month d)"
    by (simp_all add: valid_datetime_def)
  from dd days_in_month_le [OF m, of "year d"] have d31: "day d \<le> 31" by simp
  from days_before_year_bounds [OF y] days_before_month_bounds [OF m, of "year d"] d31
  show "0 \<le> toordinal d" "toordinal d \<le> 3670000"
    by (simp_all add: toordinal_def)
qed

lemma seconds_of_day_bounds:
  assumes "valid_datetime d"
  shows "0 \<le> seconds_of_day d" "seconds_of_day d < 86400"
  using assms by (simp_all add: valid_datetime_def seconds_of_day_def)

lemma ordinal_1970: "toordinal (datetime_ymd 1970 1 1) = 719163"
  by code_simp

lemma ordinal_2018: "toordinal (datetime_ymd 2018 1 1) = 736695"
  by code_simp

lemma epoch_offset:
  "total_seconds_between (datetime_ymd 2018 1 1) (datetime_ymd 1970 1 1) = 1514764800"
  by code_simp

lemma timestamp_whole:
  assumes v: "valid_datetime dt" and us: "microsecond dt = 0"
  shows "timestamp dt = of_int ((toordinal dt - 719163) * 86400 + seconds_of_day dt)"
proof -
  let ?s = "(toordinal dt - 719163) * 86400 + seconds_of_day dt"
  have mb: "microseconds_between dt (datetime_ymd 1970 1 1) = ?s * 10 ^ 6"
    unfolding microseconds_between_def ordinal_1970
    by (simp add: us datetime_ymd_def seconds_of_day_def)
  have "\<bar>?s\<bar> < 2 ^ 53"
    using toordinal_bounds [OF v] seconds_of_day_bounds [OF v] by simp
  then show ?thesis unfolding timestamp_def total_seconds_between_def mb
    by (rule py_truediv_whole)
qed

lemma gedi_deltatime_epoch_whole:
  assumes v: "valid_datetime dt" and us: "microsecond dt = 0"
  shows "gedi_deltatime_epoch dt = of_int ((toordinal dt - 736695) * 86400 + seconds_of_day dt)"
proof -
  let ?s = "(toordinal dt - 719163) * 86400 + seconds_of_day dt"
  have b: "\<bar>?s - 1514764800\<bar> < 2 ^ 53"
    using toordinal_bounds [OF v] seconds_of_day_bounds [OF v] by simp
  have "gedi_deltatime_epoch dt = round64 (of_int ?s - 1514764800)"
    by (simp only: gedi_deltatime_epoch_def float_sub_def epoch_offset timestamp_whole [OF v us])
  also have "of_int ?s - (1514764800 :: rat) = of_int (?s - 1514764800)" by simp
  also have "round64 (of_int (?s - 1514764800)) = of_int (?s - 1514764800)"
    using b by (rule round64_of_int)
  also have "?s - 1514764800 = (toordinal dt - 736695) * 86400 + seconds_of_day dt" by simp
  finally show ?thesis .
qed

text \<open>
  C8, as the code has it. For every valid UTC datetime the conversion is the float
  subtraction of 1514764800 (the seconds from 1970-01-01 to 2018-01-01) from the
  datetime's timestamp. For a datetime without microseconds the timestamp is the exact
  number of seconds since 1970-01-01T00:00:00 and the result is the exact number of
  seconds since 2018-01-01T00:00:00; for 2018-01-01T00:00:00 it is 0. With microseconds
  both the timestamp and the difference are rounded to binary64.
\<close>

theorem gedi_deltatime_epoch_seconds_since_2018:
  assumes v: "valid_datetime dt"
  shows "gedi_deltatime_epoch dt = float_sub (timestamp dt) 1514764800
     \<and> (microsecond dt = 0 \<longrightarrow>
          timestamp dt = of_int ((toordinal dt - toordinal (datetime_ymd 1970 1 1)) * 86400
                                   + seconds_of_day dt)
        \<and> gedi_deltatime_epoch dt =
            of_int ((toordinal dt - toordinal (datetime_ymd 2018 1 1)) * 86400
                      + seconds_of_day dt)
        \<and> gedi_deltatime_epoch dt = timestamp dt - 1514764800)
     \<and> gedi_deltatime_epoch (datetime_ymd 2018 1 1) = 0
     \<and> (toordinal (datetime_ymd 2018 1 1) - toordinal (datetime_ymd 1970 1 1)) * 86400
         = 1514764800"
proof -
  have 1: "gedi_deltatime_epoch dt = float_sub (timestamp dt) 1514764800"
    by (simp only: gedi_deltatime_epoch_def epoch_offset)
  have 2: "microsecond dt = 0 \<longrightarrow>
          timestamp dt = of_int ((toordinal dt - toordinal (datetime_ymd 1970 1 1)) * 86400
                                   + seconds_of_day dt)
        \<and> gedi_deltatime_epoch dt =
            of_int ((toordinal dt - toordinal (datetime_ymd 2018 1 1)) * 86400
                      + seconds_of_day dt)
        \<and> gedi_deltatime_epoch dt = timestamp dt - 1514764800"
  proof
    assume us: "microsecond dt = 0"
    note t = timestamp_whole [OF v us] and g = gedi_deltatime_epoch_whole [OF v us]
    have "gedi_deltatime_epoch dt = timestamp dt - 1514764800" unfolding t g by simp
    with t g show "timestamp dt = of_int ((toordinal dt - toordinal (datetime_ymd 1970 1 1)) * 86400
                                   + seconds_of_day dt)
        \<and> gedi_deltatime_epoch dt =
            of_int ((toordinal dt - toordinal (datetime_ymd 2018 1 1)) * 86400
                      + seconds_of_day dt)
        \<and> gedi_deltatime_epoch dt = timestamp dt - 1514764800"
      by (simp only: ordinal_1970 ordinal_2018 simp_thms)
  qed
  have 3: "(toordinal (datetime_ymd 2018 1 1) - toordinal (datetime_ymd 1970 1 1)) * 86400
         = 1514764800" unfolding ordinal_1970 ordinal_2018 by simp
  from 1 2 epoch_2018 3 show ?thesis by blast
qed

lemma valid_march_2020: "valid_datetime (datetime_ymd 2020 3 1)"
  by (simp add: valid_datetime_def datetime_ymd_def days_in_month_def mdays_def)

lemma ordinal_march_2020: "toordinal (datetime_ymd 2020 3 1) = 737485"
  by code_simp

theorem gedi_deltatime_epoch_seconds_since_2018_witness:
  "valid_datetime (datetime_ymd 2020 3 1)
   \<and> microsecond (datetime_ymd 2020 3 1) = 0
   \<and> gedi_deltatime_epoch (datetime_ymd 2020 3 1) = 68256000
   \<and> gedi_deltatime_epoch (datetime_ymd 2020 3 1) = timestamp (datetime_ymd 2020 3 1) - 1514764800"
proof -
  have us: "microsecond (datetime_ymd 2020 3 1) = 0" by (simp add: datetime_ymd_def)
  have sod: "seconds_of_day (datetime_ymd 2020 3 1) = 0"
    by (simp add: datetime_ymd_def seconds_of_day_def)
  from gedi_deltatime_epoch_seconds_since_2018 [OF valid_march_2020] us
  have g: "gedi_deltatime_epoch (datetime_ymd 2020 3 1) =
            of_int ((toordinal (datetime_ymd 2020 3 1) - toordinal (datetime_ymd 2018 1 1)) * 86400
                      + seconds_of_day (datetime_ymd 2020 3 1))"
    and d: "gedi_deltatime_epoch (datetime_ymd 2020 3 1)
      = timestamp (datetime_ymd 2020 3 1) - 1514764800" by blast+
  have "gedi_deltatime_epoch (datetime_ymd 2020 3 1) = 68256000"
    unfolding g ordinal_march_2020 ordinal_2018 sod by simp
  with valid_march_2020 us d show ?thesis by blast
qed

lemma valid_microsecond_2018:
  "valid_datetime \<lparr>year = 2018, month = 1, day = 1, hour = 0, minute = 0, second = 0,
                   microsecond = 1\<rparr>"
  by (simp add: valid_datetime_def days_in_month_def mdays_def)

lemma exact_microsecond_2018:
  "(of_int (microseconds_between
          \<lparr>year = 2018, month = 1, day = 1, hour = 0, minute = 0, second = 0, microsecond = 1\<rparr>
          (datetime_ymd 2018 1 1)) :: rat) / 10 ^ 6 = 1 / 1000000"
  by code_simp

lemma epoch_microsecond_2018:
  "gedi_deltatime_epoch
        \<lparr>year = 2018, month = 1, day = 1, hour = 0, minute = 0, second = 0, microsecond = 1\<rparr>
       = 1 / 2 ^ 20"
  by code_simp

theorem gedi_deltatime_epoch_microsecond_counterexample:
  "valid_datetime \<lparr>year = 2018, month = 1, day = 1, hour = 0, minute = 0, second = 0,
                   microsecond = 1\<rparr>
   \<and> (of_int (microseconds_between
          \<lparr>year = 2018, month = 1, day = 1, hour = 0, minute = 0, second = 0, microsecond = 1\<rparr>
          (datetime_ymd 2018 1 1)) :: rat) / 10 ^ 6 = 1 / 1000000
   \<and> gedi_deltatime_epoch
        \<lparr>year = 2018, month = 1, day = 1, hour = 0, minute = 0, second = 0, microsecond = 1\<rparr>
       = 1 / 2 ^ 20
   \<and> gedi_deltatime_epoch
        \<lparr>year = 2018, month = 1, day = 1, hour = 0, minute = 0, second = 0, microsecond = 1\<rparr>
       \<noteq> 1 / 1000000"
proof -
  have "(1 / 2 ^ 20 :: rat) \<noteq> 1 / 1000000" by simp
  with valid_microsecond_2018 exact_microsecond_2018 epoch_microsecond_2018
  show ?thesis by (simp only: simp_thms)
qed

end
